theory Spec2Isabelle
  imports Main "HOL-Library.Char_ord" "HOL-Library.List_Lexorder" "HOL-Library.AList"
begin

section \<open>RSS feed sync: a shallow embedding of rss_feed_scorer.py\<close>

text \<open>
  The embedding follows \<^verbatim>\<open>rss_feed_scorer.py\<close>, with the constants of
  \<^verbatim>\<open>config.py\<close> and the two cursor functions of \<^verbatim>\<open>db.py\<close>. Python strings are
  \<^typ>\<open>string\<close>, dictionaries with a fixed set of keys are records whose optional
  keys are \<^typ>\<open>'a option\<close>, the feeds cache is a map, Python sets are HOL sets,
  and what the program does to the outside (HTTP requests, clock readings,
  database calls, the cache file) is threaded through a record of the world.
  Printing is not modelled.
\<close>

subsection \<open>Strings\<close>

text \<open>\<^verbatim>\<open>s.startswith(p)\<close>.\<close>

fun startswith :: "string \<Rightarrow> string \<Rightarrow> bool" where
  "startswith s [] = True"
| "startswith [] (p # ps) = False"
| "startswith (c # cs) (p # ps) = (c = p \<and> startswith cs ps)"

text \<open>\<^verbatim>\<open>p in s\<close> on strings: \<open>p\<close> starts at some position of \<open>s\<close>.\<close>

fun str_in :: "string \<Rightarrow> string \<Rightarrow> bool" where
  "str_in p [] = (p = [])"
| "str_in p (c # cs) = (startswith (c # cs) p \<or> str_in p cs)"

subsection \<open>Configuration (config.py)\<close>

definition EXCLUDED_RSS_DOMAINS :: "string list" where
  "EXCLUDED_RSS_DOMAINS = [''wired.com'', ''nytimes.com'']"

definition MAX_FEED_ITEMS :: nat where
  "MAX_FEED_ITEMS = 50"

definition DAYS_LOOKBACK :: int where
  "DAYS_LOOKBACK = 7"

definition CRON_FIRST_RUN_DAYS :: int where
  "CRON_FIRST_RUN_DAYS = 1"

subsection \<open>Feed items and URL deduplication (run_sync, lines 321-328)\<close>

text \<open>
  The dictionary built by \<^verbatim>\<open>parse_feed\<close>. Every item has all five keys; a feed
  entry without a link gets the URL \<open>''''\<close> (\<^verbatim>\<open>getattr(entry, "link", "")\<close>),
  which is also what \<^verbatim>\<open>item.get("url", "")\<close> gives for a missing key.
\<close>

record feed_item =
  item_title :: string
  item_url :: string
  item_summary :: string
  item_published :: "int option"
  item_source :: string

text \<open>
  The loop \<^verbatim>\<open>for item in all_items\<close> with its two accumulators
  \<^verbatim>\<open>seen_urls\<close> and \<^verbatim>\<open>unique_items\<close>; \<^verbatim>\<open>if url and url not in seen_urls\<close>.
\<close>

fun dedup_loop :: "feed_item list \<Rightarrow> string set \<Rightarrow> feed_item list \<Rightarrow> feed_item list" where
  "dedup_loop [] seen_urls unique_items = unique_items"
| "dedup_loop (item # rest) seen_urls unique_items =
     (let u = item_url item in
      if u \<noteq> [] \<and> u \<notin> seen_urls
      then dedup_loop rest (insert u seen_urls) (unique_items @ [item])
      else dedup_loop rest seen_urls unique_items)"

definition deduplicate :: "feed_item list \<Rightarrow> feed_item list" where
  "deduplicate all_items = dedup_loop all_items {} []"

subsection \<open>The domain exclusion filter (run_sync, lines 269-276)\<close>

definition skip_domains :: "string set" where
  "skip_domains = set ([''github.com'', ''x.com'', ''twitter.com'', ''youtube.com'',
     ''apps.apple.com'', ''play.google.com'', ''linkedin.com'',
     ''facebook.com'', ''instagram.com'', ''tiktok.com''] @ EXCLUDED_RSS_DOMAINS)"

text \<open>\<^verbatim>\<open>{d for d in domains if not any(skip in d for skip in skip_domains)}\<close>\<close>

definition filter_domains :: "string set \<Rightarrow> string set" where
  "filter_domains domains = {d \<in> domains. \<not> (\<exists>skip \<in> skip_domains. str_in skip d)}"

subsection \<open>Errors\<close>

text \<open>
  The exceptions the modelled code can meet. \<open>SystemExit\<close> is what
  \<^verbatim>\<open>sys.exit(1)\<close> raises in \<^verbatim>\<open>load_crawl_results\<close>;
  \<open>ParserRejectedMarkup\<close> is what \<^verbatim>\<open>BeautifulSoup(...)\<close> raises on markup that
  \<^verbatim>\<open>html.parser\<close> rejects.
\<close>

datatype py_error =
  ValueError | RequestException | HTTPError | ParserError | ParserRejectedMarkup | SystemExit

subsection \<open>Characters\<close>

definition lower_char :: "char \<Rightarrow> char" where
  "lower_char c = (if CHR ''A'' \<le> c \<and> c \<le> CHR ''Z'' then char_of (of_char c + (32::nat)) else c)"

text \<open>\<^verbatim>\<open>s.lower()\<close> on ASCII text.\<close>

definition lower :: "string \<Rightarrow> string" where
  "lower s = map lower_char s"

definition is_ascii_alpha :: "char \<Rightarrow> bool" where
  "is_ascii_alpha c = ((CHR ''a'' \<le> c \<and> c \<le> CHR ''z'') \<or> (CHR ''A'' \<le> c \<and> c \<le> CHR ''Z''))"

definition is_scheme_char :: "char \<Rightarrow> bool" where
  "is_scheme_char c = (is_ascii_alpha c \<or> (CHR ''0'' \<le> c \<and> c \<le> CHR ''9'') \<or> c \<in> set ''+-.'')"

subsection \<open>The crawl result\<close>

text \<open>
  A post of the crawl result; a key the JSON object lacks is \<open>None\<close>, and
  \<^verbatim>\<open>post.get("url", "")\<close>, \<^verbatim>\<open>post.get("outbound_links", [])\<close> and
  \<^verbatim>\<open>crawl_data.get("posts", [])\<close> supply the defaults.
\<close>

record crawl_post =
  post_url :: "string option"
  outbound_links :: "string list option"

record crawl_data =
  posts :: "crawl_post list option"

subsection \<open>The outside world\<close>

text \<open>
  \<^verbatim>\<open>requests.get\<close> gives a response or raises; the status, the
  \<^verbatim>\<open>content-type\<close> header (absent: \<open>None\<close>) and the body are what the code reads.
\<close>

record http_response =
  resp_status :: nat
  resp_content_type :: "string option"
  resp_body :: string

text \<open>
  A \<^verbatim>\<open><link>\<close> element as BeautifulSoup gives it: \<^verbatim>\<open>rel\<close> is a multi-valued
  attribute (a list of tokens), \<^verbatim>\<open>type\<close> and \<^verbatim>\<open>href\<close> are strings when present.
\<close>

record link_tag =
  link_rel :: "string list"
  link_type :: "string option"
  link_href :: "string option"

text \<open>
  One of the three date attributes of a feed entry: absent or falsy, present but
  rejected by \<^verbatim>\<open>datetime(*t[:6])\<close>, or converted to a timestamp. Timestamps are
  naive datetimes, counted in microseconds.
\<close>

datatype date_field = Missing | Unconvertible | Converts int

record feed_entry =
  published_parsed :: date_field
  updated_parsed :: date_field
  created_parsed :: date_field
  entry_title :: "string option"
  entry_link :: "string option"
  entry_summary :: "string option"
  entry_description :: "string option"
  entry_content :: "string option list option"

record parsed_feed =
  bozo :: bool
  entries :: "feed_entry list"

text \<open>
  What the libraries and the network answer during one run: the response to a GET
  (\<open>None\<close>: the request raises), the \<^verbatim>\<open><link>\<close> elements of an HTML text in
  document order, \<^verbatim>\<open>urljoin\<close>, \<^verbatim>\<open>feedparser.parse\<close> (\<open>None\<close>: it raises),
  \<^verbatim>\<open>BeautifulSoup(summary, "html.parser").get_text(separator=" ", strip=True)\<close> of
  a summary (\<open>Inl\<close>: the parser rejects the markup and raises), the further checks
  of \<^verbatim>\<open>urlparse\<close> on a network location, the successive readings of
  \<^verbatim>\<open>datetime.now()\<close>, \<^verbatim>\<open>strftime("%G-W%V")\<close>, and the order in which
  \<^verbatim>\<open>list(domains)\<close> enumerates a set. An HTML page whose markup the parser
  rejects has no \<^verbatim>\<open><link>\<close> elements here: \<^verbatim>\<open>discover_rss_from_html\<close> returns
  none for it either way.
\<close>

record env =
  http_get :: "string \<Rightarrow> http_response option"
  html_links :: "string \<Rightarrow> link_tag list"
  urljoin :: "string \<Rightarrow> string \<Rightarrow> py_error + string"
  feedparser_parse :: "string \<Rightarrow> parsed_feed option"
  get_text :: "string \<Rightarrow> py_error + string"
  netloc_rejected :: "string \<Rightarrow> bool"
  clock :: "nat \<Rightarrow> int"
  strftime_week :: "int \<Rightarrow> string"
  list_of_set :: "string set \<Rightarrow> string list"

text \<open>
  An entry of the feeds cache: \<^verbatim>\<open>{"feed_url": ..., "discovered_at": ...}\<close> or
  \<^verbatim>\<open>{"no_feed": true, "checked_at": ...}\<close>; the file can hold any subset of the
  four keys.
\<close>

record cache_entry =
  ce_feed_url :: "string option"
  ce_discovered_at :: "int option"
  ce_no_feed :: "bool option"
  ce_checked_at :: "int option"

type_synonym feeds_cache = "string \<rightharpoonup> cache_entry"

text \<open>
  The text stored under \<^verbatim>\<open>last_run\<close> in table \<^verbatim>\<open>cron_state\<close>: the
  \<^verbatim>\<open>isoformat()\<close> of a timestamp, which \<^verbatim>\<open>fromisoformat\<close> reads back, or
  any other text (the empty one included).
\<close>

datatype stored_text = IsoText int | OtherText string

datatype db_call =
    GetCurrentWeek
  | GetLastCronRun
  | SetLastCronRun
  | UpsertArticles "feed_item list" string
  | GetCurrentStats

text \<open>
  What a run changes: the GET requests issued so far (oldest first), the number of
  clock readings taken, the row \<^verbatim>\<open>last_run\<close> of \<^verbatim>\<open>cron_state\<close>, the calls made
  to \<^verbatim>\<open>db.py\<close>, and the two JSON files (\<open>None\<close>: missing or not valid JSON).
\<close>

record world =
  requests :: "string list"
  ticks :: nat
  cron_state :: "stored_text option"
  db_calls :: "db_call list"
  crawl_results_file :: "crawl_data option"
  feeds_cache_file :: "feeds_cache option"

definition datetime_now :: "env \<Rightarrow> world \<Rightarrow> int \<times> world" where
  "datetime_now e w = (clock e (ticks w), w\<lparr>ticks := Suc (ticks w)\<rparr>)"

text \<open>\<^verbatim>\<open>timedelta(days=n)\<close> in microseconds.\<close>

definition timedelta_days :: "int \<Rightarrow> int" where
  "timedelta_days n = n * 86400000000"

definition requests_get :: "env \<Rightarrow> string \<Rightarrow> world \<Rightarrow> http_response option \<times> world" where
  "requests_get e u w = (http_get e u, w\<lparr>requests := requests w @ [u]\<rparr>)"

text \<open>\<^verbatim>\<open>response.raise_for_status()\<close> raises for a 4xx or 5xx status.\<close>

definition raises_for_status :: "http_response \<Rightarrow> bool" where
  "raises_for_status r = (400 \<le> resp_status r \<and> resp_status r < 600)"

text \<open>Truthiness of an optional string: present and not empty.\<close>

definition truthy :: "string option \<Rightarrow> bool" where
  "truthy v = (case v of None \<Rightarrow> False | Some s \<Rightarrow> s \<noteq> [])"

subsection \<open>urllib.parse\<close>

text \<open>
  The network location that the standard library's \<^verbatim>\<open>urlsplit\<close> cuts out of a
  URL: leading control characters and spaces are stripped, tabs and line breaks
  removed, a leading \<^verbatim>\<open>scheme:\<close> is cut off, and if what follows starts with
  \<^verbatim>\<open>//\<close> the network location is the text up to the next \<^verbatim>\<open>/\<close>, \<^verbatim>\<open>?\<close> or
  \<^verbatim>\<open>#\<close>; otherwise it is empty.
\<close>

definition split_netloc :: "string \<Rightarrow> string" where
  "split_netloc url =
     (let url1 = dropWhile (\<lambda>c. of_char c \<le> (32::nat)) url;
          url2 = filter (\<lambda>c. c \<notin> {CHR 0x09, CHR 0x0A, CHR 0x0D}) url1;
          scheme = takeWhile (\<lambda>c. c \<noteq> CHR '':'') url2;
          url3 = (if CHR '':'' \<in> set url2 \<and> scheme \<noteq> [] \<and> is_ascii_alpha (hd scheme)
                     \<and> list_all is_scheme_char scheme
                  then drop (Suc (length scheme)) url2 else url2)
      in if take 2 url3 = ''//''
         then takeWhile (\<lambda>c. c \<notin> set ''/?#'') (drop 2 url3)
         else [])"

definition is_ascii :: "string \<Rightarrow> bool" where
  "is_ascii s = list_all (\<lambda>c. of_char c < (128::nat)) s"

text \<open>
  \<^verbatim>\<open>urlparse(url).netloc\<close>. The library raises \<^verbatim>\<open>ValueError\<close> when the network
  location has one bracket without the other. It checks further only a network
  location with brackets (the bracketed host must be an IP literal) or with
  non-ASCII characters (its NFKC form must not bring in a delimiter); what these
  checks decide is \<open>netloc_rejected\<close> of the environment. A network location of
  ASCII characters without brackets is returned as it is.
\<close>

definition urlparse_netloc :: "env \<Rightarrow> string \<Rightarrow> py_error + string" where
  "urlparse_netloc e url =
     (let netloc = split_netloc url
      in if (CHR ''['' \<in> set netloc) \<noteq> (CHR '']'' \<in> set netloc) then Inl ValueError
         else if (CHR ''['' \<in> set netloc \<or> \<not> is_ascii netloc) \<and> netloc_rejected e netloc
         then Inl ValueError
         else Inr netloc)"

subsection \<open>Domain extraction (extract_domains_from_crawl)\<close>

definition add_netloc :: "env \<Rightarrow> string \<Rightarrow> string set \<Rightarrow> py_error + string set" where
  "add_netloc e u domains =
     (case urlparse_netloc e u of
        Inl err \<Rightarrow> Inl err
      | Inr netloc \<Rightarrow> Inr (if netloc \<noteq> [] then insert netloc domains else domains))"

fun links_loop :: "env \<Rightarrow> string list \<Rightarrow> string set \<Rightarrow> py_error + string set" where
  "links_loop e [] domains = Inr domains"
| "links_loop e (link # rest) domains =
     (case add_netloc e link domains of
        Inl err \<Rightarrow> Inl err
      | Inr domains' \<Rightarrow> links_loop e rest domains')"

fun posts_loop :: "env \<Rightarrow> crawl_post list \<Rightarrow> string set \<Rightarrow> py_error + string set" where
  "posts_loop e [] domains = Inr domains"
| "posts_loop e (post # rest) domains =
     (let u = (case post_url post of None \<Rightarrow> [] | Some v \<Rightarrow> v)
      in case (if u \<noteq> [] then add_netloc e u domains else Inr domains) of
           Inl err \<Rightarrow> Inl err
         | Inr domains1 \<Rightarrow>
             (case links_loop e (case outbound_links post of None \<Rightarrow> [] | Some ls \<Rightarrow> ls) domains1 of
                Inl err \<Rightarrow> Inl err
              | Inr domains2 \<Rightarrow> posts_loop e rest domains2))"

definition extract_domains_from_crawl :: "env \<Rightarrow> crawl_data \<Rightarrow> py_error + string set" where
  "extract_domains_from_crawl e cd =
     posts_loop e (case posts cd of None \<Rightarrow> [] | Some ps \<Rightarrow> ps) {}"

text \<open>The URLs the extractor looks at: each post's own URL and its outbound links.\<close>

definition post_urls :: "crawl_post \<Rightarrow> string list" where
  "post_urls post =
     (case post_url post of None \<Rightarrow> [] | Some v \<Rightarrow> [v])
     @ (case outbound_links post of None \<Rightarrow> [] | Some ls \<Rightarrow> ls)"

definition crawl_urls :: "crawl_data \<Rightarrow> string list" where
  "crawl_urls cd = concat (map post_urls (case posts cd of None \<Rightarrow> [] | Some ps \<Rightarrow> ps))"

subsection \<open>Feed discovery from HTML (discover_rss_from_html)\<close>

definition FEED_LINK_TYPES :: "string list" where
  "FEED_LINK_TYPES = [''application/rss+xml'', ''application/atom+xml'', ''application/xml'']"

definition link_matches :: "string \<Rightarrow> link_tag \<Rightarrow> bool" where
  "link_matches t l = (''alternate'' \<in> set (link_rel l) \<and> link_type l = Some t)"

text \<open>\<^verbatim>\<open>soup.find("link", {"rel": "alternate", "type": link_type})\<close>\<close>

definition soup_find :: "link_tag list \<Rightarrow> string \<Rightarrow> link_tag option" where
  "soup_find soup t = find (link_matches t) soup"

text \<open>The loop over the three link types, inside the \<^verbatim>\<open>try\<close>.\<close>

fun link_type_loop :: "env \<Rightarrow> string \<Rightarrow> link_tag list \<Rightarrow> string list \<Rightarrow> py_error + string option" where
  "link_type_loop e u soup [] = Inr None"
| "link_type_loop e u soup (t # ts) =
     (case soup_find soup t of
        None \<Rightarrow> link_type_loop e u soup ts
      | Some link \<Rightarrow>
          (case link_href link of
             None \<Rightarrow> link_type_loop e u soup ts
           | Some feed_url \<Rightarrow>
               if feed_url = [] then link_type_loop e u soup ts
               else if \<not> startswith feed_url ''http''
               then (case urljoin e u feed_url of
                       Inl err \<Rightarrow> Inl err
                     | Inr joined \<Rightarrow> Inr (Some joined))
               else Inr (Some feed_url)))"

definition discover_rss_from_html :: "env \<Rightarrow> string \<Rightarrow> world \<Rightarrow> string option \<times> world" where
  "discover_rss_from_html e u w =
     (let (resp, w1) = requests_get e u w
      in case resp of
           None \<Rightarrow> (None, w1)
         | Some response \<Rightarrow>
             if raises_for_status response then (None, w1)
             else (case link_type_loop e u (html_links e (resp_body response)) FEED_LINK_TYPES of
                     Inl err \<Rightarrow> (None, w1)
                   | Inr r \<Rightarrow> (r, w1)))"

subsection \<open>Pattern probing (try_rss_patterns)\<close>

definition RSS_PATTERNS :: "string list" where
  "RSS_PATTERNS = [''/feed'', ''/rss'', ''/atom.xml'', ''/feed.xml'', ''/rss.xml'', ''/feed/'',
     ''/rss/'', ''/blog/feed'', ''/blog/rss'', ''/blog/feed.xml'', ''/blog/rss.xml'',
     ''/index.xml'', ''/feeds/posts/default'']"

definition looks_like_feed :: "http_response \<Rightarrow> bool" where
  "looks_like_feed r =
     (let content_type = lower (case resp_content_type r of None \<Rightarrow> [] | Some v \<Rightarrow> v);
          content_start = lower (take 500 (resp_body r))
      in (\<exists>x \<in> set [''xml'', ''rss'', ''atom'']. str_in x content_type)
         \<or> (\<exists>x \<in> set [''<rss'', ''<feed'', ''<atom'', ''<?xml'']. str_in x content_start))"

fun probe_loop :: "env \<Rightarrow> string list \<Rightarrow> world \<Rightarrow> string option \<times> world" where
  "probe_loop e [] w = (None, w)"
| "probe_loop e (feed_url # rest) w =
     (let (resp, w1) = requests_get e feed_url w
      in case resp of
           None \<Rightarrow> probe_loop e rest w1
         | Some response \<Rightarrow>
             if resp_status response = 200 \<and> looks_like_feed response
             then (Some feed_url, w1)
             else probe_loop e rest w1)"

definition try_rss_patterns :: "env \<Rightarrow> string \<Rightarrow> world \<Rightarrow> string option \<times> world" where
  "try_rss_patterns e domain w =
     probe_loop e
       (concat (map (\<lambda>base_url. map (\<lambda>pattern. base_url @ pattern) RSS_PATTERNS)
                    [''https://'' @ domain, ''https://www.'' @ domain])) w"

subsection \<open>Feed discovery with the cache (discover_rss_feed)\<close>

text \<open>
  The cache check at the head of \<^verbatim>\<open>discover_rss_feed\<close>: \<open>Some r\<close> when the
  function returns \<open>r\<close> from the cache, \<open>None\<close> when it goes on to discover.
\<close>

definition cache_lookup :: "feeds_cache \<Rightarrow> string \<Rightarrow> string option option" where
  "cache_lookup cache domain =
     (case cache domain of
        None \<Rightarrow> None
      | Some cached \<Rightarrow>
          if truthy (ce_feed_url cached) then Some (ce_feed_url cached)
          else if ce_no_feed cached = Some True then Some None
          else None)"

definition discover_rss_feed ::
  "env \<Rightarrow> string \<Rightarrow> feeds_cache \<Rightarrow> world \<Rightarrow> string option \<times> feeds_cache \<times> world" where
  "discover_rss_feed e domain cache w =
     (case cache_lookup cache domain of
        Some r \<Rightarrow> (r, cache, w)
      | None \<Rightarrow>
          (let (f1, w1) = discover_rss_from_html e (''https://'' @ domain) w;
               (f2, w2) = (if \<not> truthy f1
                           then discover_rss_from_html e (''https://www.'' @ domain) w1
                           else (f1, w1));
               (feed_url, w3) = (if \<not> truthy f2 then try_rss_patterns e domain w2 else (f2, w2));
               (now, w4) = datetime_now e w3
           in if truthy feed_url
              then (feed_url,
                    cache(domain \<mapsto> \<lparr>ce_feed_url = feed_url, ce_discovered_at = Some now,
                                     ce_no_feed = None, ce_checked_at = None\<rparr>), w4)
              else (feed_url,
                    cache(domain \<mapsto> \<lparr>ce_feed_url = None, ce_discovered_at = None,
                                     ce_no_feed = Some True, ce_checked_at = Some now\<rparr>), w4)))"

text \<open>The two variants of a cache entry, told apart the way the cache check does.\<close>

definition is_resolved :: "cache_entry \<Rightarrow> bool" where
  "is_resolved c = truthy (ce_feed_url c)"

definition is_no_feed :: "cache_entry \<Rightarrow> bool" where
  "is_no_feed c = (\<not> truthy (ce_feed_url c) \<and> ce_no_feed c = Some True)"

subsection \<open>Fetching and parsing a feed (parse_feed)\<close>

text \<open>
  The loop over \<^verbatim>\<open>published_parsed\<close>, \<^verbatim>\<open>updated_parsed\<close>, \<^verbatim>\<open>created_parsed\<close>:
  the first attribute that is present and converts gives the date.
\<close>

fun date_field_loop :: "date_field list \<Rightarrow> int option" where
  "date_field_loop [] = None"
| "date_field_loop (Converts t # rest) = Some t"
| "date_field_loop (Missing # rest) = date_field_loop rest"
| "date_field_loop (Unconvertible # rest) = date_field_loop rest"

definition pub_date_of :: "feed_entry \<Rightarrow> int option" where
  "pub_date_of entry =
     date_field_loop [published_parsed entry, updated_parsed entry, created_parsed entry]"

definition raw_summary :: "feed_entry \<Rightarrow> string" where
  "raw_summary entry =
     (case entry_summary entry of
        Some s \<Rightarrow> s
      | None \<Rightarrow>
          (case entry_description entry of
             Some s \<Rightarrow> s
           | None \<Rightarrow>
               (case entry_content entry of
                  Some (c # cs) \<Rightarrow> (case c of Some v \<Rightarrow> v | None \<Rightarrow> [])
                | _ \<Rightarrow> [])))"

text \<open>
  \<^verbatim>\<open>if summary: summary = BeautifulSoup(summary, "html.parser").get_text(...)[:500]\<close>;
  it raises when the parser rejects the markup.
\<close>

definition clean_summary :: "env \<Rightarrow> string \<Rightarrow> py_error + string" where
  "clean_summary e s =
     (if s \<noteq> []
      then (case get_text e s of Inl err \<Rightarrow> Inl err | Inr t \<Rightarrow> Inr (take 500 t))
      else Inr s)"

text \<open>The dictionary appended to \<^verbatim>\<open>items\<close>, given the cleaned summary and the feed's host.\<close>

definition make_item :: "string \<Rightarrow> string \<Rightarrow> feed_entry \<Rightarrow> feed_item" where
  "make_item netloc summary entry =
     \<lparr>item_title = (case entry_title entry of None \<Rightarrow> ''Untitled'' | Some t \<Rightarrow> t),
      item_url = (case entry_link entry of None \<Rightarrow> [] | Some l \<Rightarrow> l),
      item_summary = summary,
      item_published = pub_date_of entry,
      item_source = netloc\<rparr>"

text \<open>
  What the loop body does with an entry that is not skipped: clean the summary,
  then build the item, evaluating \<^verbatim>\<open>urlparse(feed_url).netloc\<close>; either can raise.
\<close>

definition append_item ::
  "env \<Rightarrow> string \<Rightarrow> feed_entry \<Rightarrow> feed_item list \<Rightarrow> py_error + feed_item list" where
  "append_item e feed_url entry items =
     (case clean_summary e (raw_summary entry) of
        Inl err \<Rightarrow> Inl err
      | Inr summary \<Rightarrow>
          (case urlparse_netloc e feed_url of
             Inl err \<Rightarrow> Inl err
           | Inr netloc \<Rightarrow> Inr (items @ [make_item netloc summary entry])))"

text \<open>\<^verbatim>\<open>pub_date is not None and pub_date < cutoff_date\<close>\<close>

definition before_cutoff :: "int option \<Rightarrow> int \<Rightarrow> bool" where
  "before_cutoff pub_date cutoff_date =
     (case pub_date of None \<Rightarrow> False | Some d \<Rightarrow> d < cutoff_date)"

text \<open>
  The loop over \<^verbatim>\<open>feed.entries[:config.MAX_FEED_ITEMS]\<close>, with \<^verbatim>\<open>items\<close> as
  accumulator; an exception ends it.
\<close>

fun entries_loop ::
  "env \<Rightarrow> string \<Rightarrow> int \<Rightarrow> feed_entry list \<Rightarrow> feed_item list \<Rightarrow> py_error + feed_item list" where
  "entries_loop e feed_url cutoff_date [] items = Inr items"
| "entries_loop e feed_url cutoff_date (entry # rest) items =
     (if before_cutoff (pub_date_of entry) cutoff_date
      then entries_loop e feed_url cutoff_date rest items
      else (case append_item e feed_url entry items of
              Inl err \<Rightarrow> Inl err
            | Inr items' \<Rightarrow> entries_loop e feed_url cutoff_date rest items'))"

text \<open>The body of the \<^verbatim>\<open>try\<close> block: an exception is \<open>Inl\<close>.\<close>

definition parse_feed_body ::
  "env \<Rightarrow> string \<Rightarrow> int option \<Rightarrow> world \<Rightarrow> (py_error + feed_item list) \<times> world" where
  "parse_feed_body e feed_url cutoff_date w =
     (let (resp, w1) = requests_get e feed_url w
      in case resp of
           None \<Rightarrow> (Inl RequestException, w1)
         | Some response \<Rightarrow>
             if raises_for_status response then (Inl HTTPError, w1)
             else (case feedparser_parse e (resp_body response) of
                     None \<Rightarrow> (Inl ParserError, w1)
                   | Some feed \<Rightarrow>
                       if bozo feed \<and> entries feed = [] then (Inr [], w1)
                       else (let (cutoff, w2) =
                                   (case cutoff_date of
                                      None \<Rightarrow>
                                        (let (now, w') = datetime_now e w1
                                         in (now - timedelta_days DAYS_LOOKBACK, w'))
                                    | Some c \<Rightarrow> (c, w1))
                             in (entries_loop e feed_url cutoff
                                   (take MAX_FEED_ITEMS (entries feed)) [], w2))))"

text \<open>\<^verbatim>\<open>except Exception: return []\<close>\<close>

definition parse_feed ::
  "env \<Rightarrow> string \<Rightarrow> int option \<Rightarrow> world \<Rightarrow> feed_item list \<times> world" where
  "parse_feed e feed_url cutoff_date w =
     (case parse_feed_body e feed_url cutoff_date w of
        (Inl err, w') \<Rightarrow> ([], w')
      | (Inr items, w') \<Rightarrow> (items, w'))"

subsection \<open>The database cursor (db.py)\<close>

definition get_current_week :: "env \<Rightarrow> world \<Rightarrow> string \<times> world" where
  "get_current_week e w =
     (let (now, w1) = datetime_now e w
      in (strftime_week e now, w1\<lparr>db_calls := db_calls w1 @ [GetCurrentWeek]\<rparr>))"

text \<open>
  \<^verbatim>\<open>get_last_cron_run\<close>: no row, an empty value and a value that
  \<^verbatim>\<open>fromisoformat\<close> rejects all give \<open>None\<close>.
\<close>

definition get_last_cron_run :: "world \<Rightarrow> int option \<times> world" where
  "get_last_cron_run w =
     ((case cron_state w of
         Some (IsoText t) \<Rightarrow> Some t
       | Some (OtherText s) \<Rightarrow> None
       | None \<Rightarrow> None),
      w\<lparr>db_calls := db_calls w @ [GetLastCronRun]\<rparr>)"

definition set_last_cron_run :: "env \<Rightarrow> world \<Rightarrow> world" where
  "set_last_cron_run e w =
     (let (now, w1) = datetime_now e w
      in w1\<lparr>cron_state := Some (IsoText now), db_calls := db_calls w1 @ [SetLastCronRun]\<rparr>)"

text \<open>
  \<^verbatim>\<open>upsert_articles\<close> reads the clock once and counts one per item; the tables
  themselves are not modelled.
\<close>

definition upsert_articles :: "env \<Rightarrow> feed_item list \<Rightarrow> string \<Rightarrow> world \<Rightarrow> nat \<times> world" where
  "upsert_articles e items week w =
     (let (now, w1) = datetime_now e w
      in (length items, w1\<lparr>db_calls := db_calls w1 @ [UpsertArticles items week]\<rparr>))"

definition get_current_stats :: "world \<Rightarrow> world" where
  "get_current_stats w = w\<lparr>db_calls := db_calls w @ [GetCurrentStats]\<rparr>"

subsection \<open>The sync run (run_sync)\<close>

definition load_crawl_results :: "world \<Rightarrow> py_error + crawl_data" where
  "load_crawl_results w =
     (case crawl_results_file w of None \<Rightarrow> Inl SystemExit | Some cd \<Rightarrow> Inr cd)"

definition load_feeds_cache :: "world \<Rightarrow> feeds_cache" where
  "load_feeds_cache w = (case feeds_cache_file w of None \<Rightarrow> Map.empty | Some c \<Rightarrow> c)"

definition save_feeds_cache :: "feeds_cache \<Rightarrow> world \<Rightarrow> world" where
  "save_feeds_cache cache w = w\<lparr>feeds_cache_file := Some cache\<rparr>"

text \<open>The cutoff block at the head of \<^verbatim>\<open>run_sync\<close> (lines 234-249).\<close>

definition compute_cutoff :: "env \<Rightarrow> bool \<Rightarrow> world \<Rightarrow> int \<times> world" where
  "compute_cutoff e cron_mode w =
     (if cron_mode
      then (let (last_run, w1) = get_last_cron_run w
            in case last_run of
                 Some t \<Rightarrow> (t, w1)
               | None \<Rightarrow>
                   (let (now, w2) = datetime_now e w1
                    in (now - timedelta_days CRON_FIRST_RUN_DAYS, w2)))
      else (let (now, w1) = datetime_now e w
            in (now - timedelta_days DAYS_LOOKBACK, w1)))"

text \<open>
  The loop \<^verbatim>\<open>for domain in sorted(domains)\<close>; \<^verbatim>\<open>feed_urls\<close> is a dictionary in
  insertion order.
\<close>

fun discover_loop ::
  "env \<Rightarrow> bool \<Rightarrow> string list \<Rightarrow> feeds_cache \<Rightarrow> (string \<times> string) list \<Rightarrow> world
     \<Rightarrow> (string \<times> string) list \<times> feeds_cache \<times> world" where
  "discover_loop e skip_discovery [] cache feed_urls w = (feed_urls, cache, w)"
| "discover_loop e skip_discovery (domain # rest) cache feed_urls w =
     (if skip_discovery \<and> cache domain = None
      then discover_loop e skip_discovery rest cache feed_urls w
      else (let (feed_url, cache1, w1) = discover_rss_feed e domain cache w
            in case feed_url of
                 None \<Rightarrow> discover_loop e skip_discovery rest cache1 feed_urls w1
               | Some f \<Rightarrow>
                   if f = [] then discover_loop e skip_discovery rest cache1 feed_urls w1
                   else discover_loop e skip_discovery rest cache1
                          (AList.update domain f feed_urls) w1))"

text \<open>The loop \<^verbatim>\<open>for domain, feed_url in feed_urls.items()\<close>.\<close>

fun parse_loop ::
  "env \<Rightarrow> int \<Rightarrow> (string \<times> string) list \<Rightarrow> feed_item list \<Rightarrow> world \<Rightarrow> feed_item list \<times> world" where
  "parse_loop e cutoff_date [] all_items w = (all_items, w)"
| "parse_loop e cutoff_date ((domain, feed_url) # rest) all_items w =
     (let (items, w1) = parse_feed e feed_url (Some cutoff_date) w
      in parse_loop e cutoff_date rest (all_items @ items) w1)"

text \<open>
  What \<^verbatim>\<open>run_sync\<close> does once the domains are known: discovery, parsing,
  deduplication, storing and the cursor.
\<close>

definition sync_domains ::
  "env \<Rightarrow> bool \<Rightarrow> bool \<Rightarrow> bool \<Rightarrow> string \<Rightarrow> int \<Rightarrow> string set \<Rightarrow> world \<Rightarrow> nat \<times> world" where
  "sync_domains e cron_mode skip_discovery verbose week cutoff_date domains w =
     (let (feed_urls, cache, w1) =
            discover_loop e skip_discovery (sorted_list_of_set domains) (load_feeds_cache w) [] w;
          w2 = save_feeds_cache cache w1
      in if feed_urls = [] then (0, w2)
         else (let (all_items, w3) = parse_loop e cutoff_date feed_urls [] w2;
                   unique_items = deduplicate all_items
               in if unique_items = []
                  then (0, if cron_mode then set_last_cron_run e w3 else w3)
                  else (let (count, w4) = upsert_articles e unique_items week w3;
                            w5 = (if cron_mode then set_last_cron_run e w4 else w4);
                            w6 = (if verbose then get_current_stats w5 else w5)
                        in (count, w6))))"

definition run_sync ::
  "env \<Rightarrow> bool \<Rightarrow> bool \<Rightarrow> int \<Rightarrow> bool \<Rightarrow> world \<Rightarrow> (py_error + nat) \<times> world" where
  "run_sync e cron_mode skip_discovery limit_domains verbose w =
     (let (week, w1) = get_current_week e w;
          (cutoff_date, w2) = compute_cutoff e cron_mode w1
      in case load_crawl_results w2 of
           Inl err \<Rightarrow> (Inl err, w2)
         | Inr cd \<Rightarrow>
             (case extract_domains_from_crawl e cd of
                Inl err \<Rightarrow> (Inl err, w2)
              | Inr extracted \<Rightarrow>
                  (let domains = filter_domains extracted;
                       limited = (if limit_domains > 0
                                  then set (take (nat limit_domains) (list_of_set e domains))
                                  else domains);
                       (count, w3) = sync_domains e cron_mode skip_discovery verbose week
                                       cutoff_date limited w2
                   in (Inr count, w3))))"

section \<open>Example inputs\<close>

definition linkless_item :: feed_item where
  "linkless_item = \<lparr>item_title = ''Untitled'', item_url = [], item_summary = [],
     item_published = None, item_source = ''blog.example''\<rparr>"

definition post_a :: feed_item where
  "post_a = \<lparr>item_title = ''A'', item_url = ''https://a.example/x'', item_summary = [],
     item_published = None, item_source = ''a.example''\<rparr>"

definition post_a_again :: feed_item where
  "post_a_again = \<lparr>item_title = ''A again'', item_url = ''https://a.example/x'', item_summary = [],
     item_published = None, item_source = ''b.example''\<rparr>"

definition world0 :: world where
  "world0 = \<lparr>requests = [], ticks = 0, cron_state = None, db_calls = [],
     crawl_results_file = None, feeds_cache_file = None\<rparr>"

definition atom_link :: link_tag where
  "atom_link = \<lparr>link_rel = [''alternate''], link_type = Some ''application/atom+xml'',
     link_href = Some ''https://blog.example/atom.xml''\<rparr>"

definition rss_link :: link_tag where
  "rss_link = \<lparr>link_rel = [''alternate''], link_type = Some ''application/rss+xml'',
     link_href = Some ''/rss.xml''\<rparr>"

definition html_page :: http_response where
  "html_page = \<lparr>resp_status = 200, resp_content_type = Some ''text/html'',
     resp_body = ''<html>''\<rparr>"

definition rss_page :: http_response where
  "rss_page = \<lparr>resp_status = 200, resp_content_type = Some ''application/rss+xml'',
     resp_body = ''<rss>''\<rparr>"

definition plain_entry :: feed_entry where
  "plain_entry = \<lparr>published_parsed = Missing, updated_parsed = Missing,
     created_parsed = Missing, entry_title = None, entry_link = None, entry_summary = None,
     entry_description = None, entry_content = None\<rparr>"

definition old_entry :: feed_entry where
  "old_entry = plain_entry\<lparr>published_parsed := Converts 5, entry_link := Some ''https://blog.example/old''\<rparr>"

definition undated_entry :: feed_entry where
  "undated_entry = plain_entry\<lparr>published_parsed := Unconvertible, entry_link := Some ''https://blog.example/undated''\<rparr>"

definition new_entry :: feed_entry where
  "new_entry = plain_entry\<lparr>updated_parsed := Converts 10,
     entry_link := Some ''https://blog.example/new'', entry_summary := Some ''New post''\<rparr>"

definition blog_feed :: parsed_feed where
  "blog_feed = \<lparr>bozo = False, entries = [old_entry, undated_entry, new_entry]\<rparr>"

definition rejected_entry :: feed_entry where
  "rejected_entry = plain_entry\<lparr>updated_parsed := Converts 20,
     entry_link := Some ''https://blog.example/rejected'', entry_summary := Some ''see <![foo[ bar''\<rparr>"

text \<open>A feed with an undated entry and an entry whose summary the HTML parser rejects.\<close>

definition notes_feed :: parsed_feed where
  "notes_feed = \<lparr>bozo = False, entries = [undated_entry, rejected_entry]\<rparr>"

definition notes_page :: http_response where
  "notes_page = \<lparr>resp_status = 200, resp_content_type = Some ''application/rss+xml'',
     resp_body = ''<notes>''\<rparr>"

definition hrefless_rss_link :: link_tag where
  "hrefless_rss_link = \<lparr>link_rel = [''alternate'', ''feed''],
     link_type = Some ''application/rss+xml'', link_href = None\<rparr>"

definition atom_only_page :: http_response where
  "atom_only_page = \<lparr>resp_status = 200, resp_content_type = Some ''text/html'',
     resp_body = ''<atom>''\<rparr>"

definition not_found_page :: http_response where
  "not_found_page = \<lparr>resp_status = 404, resp_content_type = Some ''text/html'',
     resp_body = ''Not Found''\<rparr>"

definition garbage_page :: http_response where
  "garbage_page = \<lparr>resp_status = 200, resp_content_type = None, resp_body = ''garbage''\<rparr>"

definition malformed_page :: http_response where
  "malformed_page = \<lparr>resp_status = 200, resp_content_type = Some ''text/xml'',
     resp_body = ''<rss''\<rparr>"

text \<open>
  A site whose home page declares an Atom feed and then an RSS feed; its RSS feed
  has three entries, and three further URLs answer with a 404, with a body the feed
  parser raises on, and with a malformed document without entries; a second feed
  has an entry whose summary the HTML parser rejects. A second site declares an RSS
  link without href and then an Atom feed. \<^verbatim>\<open>urlparse\<close> rejects the bracketed host
  \<^verbatim>\<open>[not-ip]\<close>.
\<close>

definition blog_env :: env where
  "blog_env = \<lparr>http_get = (\<lambda>u. if u = ''https://blog.example'' then Some html_page
                           else if u = ''https://blog.example/rss.xml'' then Some rss_page
                           else if u = ''https://blog.example/gone'' then Some not_found_page
                           else if u = ''https://blog.example/garbage'' then Some garbage_page
                           else if u = ''https://blog.example/malformed'' then Some malformed_page
                           else if u = ''https://atom.example'' then Some atom_only_page
                           else if u = ''https://blog.example/notes.xml'' then Some notes_page
                           else None),
     html_links = (\<lambda>body. if body = ''<html>'' then [atom_link, rss_link]
                            else if body = ''<atom>'' then [hrefless_rss_link, atom_link]
                            else []),
     urljoin = (\<lambda>base href. Inr (base @ href)),
     feedparser_parse = (\<lambda>body. if body = ''<rss>'' then Some blog_feed
                                  else if body = ''<rss'' then Some \<lparr>bozo = True, entries = []\<rparr>
                                  else if body = ''<notes>'' then Some notes_feed
                                  else None),
     get_text = (\<lambda>s. if s = ''see <![foo[ bar'' then Inl ParserRejectedMarkup else Inr s),
     netloc_rejected = (\<lambda>netloc. netloc = ''[not-ip]''),
     clock = (\<lambda>n. 1000000 * int n),
     strftime_week = (\<lambda>t. ''2026-W45''),
     list_of_set = sorted_list_of_set\<rparr>"

definition no_feed_entry :: cache_entry where
  "no_feed_entry = \<lparr>ce_feed_url = None, ce_discovered_at = None,
     ce_no_feed = Some True, ce_checked_at = Some 0\<rparr>"

definition resolved_entry :: cache_entry where
  "resolved_entry = \<lparr>ce_feed_url = Some ''https://a.example/feed'', ce_discovered_at = Some 0,
     ce_no_feed = None, ce_checked_at = None\<rparr>"

definition seeded_cache :: feeds_cache where
  "seeded_cache = [''a.example'' \<mapsto> resolved_entry, ''dead.example'' \<mapsto> no_feed_entry]"

text \<open>The first alternate link of any of the three types, in document order (spec 4.2, step 2).\<close>

definition first_link_in_document_order :: "link_tag list \<Rightarrow> link_tag option" where
  "first_link_in_document_order soup =
     find (\<lambda>l. \<exists>t \<in> set FEED_LINK_TYPES. link_matches t l) soup"



text \<open>A crawl result whose URLs spell the host with a capital letter and a leading www.\<close>

definition mixed_case_crawl :: crawl_data where
  "mixed_case_crawl = \<lparr>posts = Some [\<lparr>post_url = Some ''https://www.Example.com/post/1'',
     outbound_links = Some [''https://www.Example.com/about'', ''mailto:me@example.com'']\<rparr>]\<rparr>"

text \<open>The non-empty network locations of a list of URLs.\<close>

definition netlocs_of :: "env \<Rightarrow> string list \<Rightarrow> string set" where
  "netlocs_of e us = {d. d \<noteq> [] \<and> (\<exists>u \<in> set us. urlparse_netloc e u = Inr d)}"

text \<open>The database is as it was: no call was made and the cursor row is unchanged.\<close>

definition db_untouched :: "world \<Rightarrow> world \<Rightarrow> bool" where
  "db_untouched w w' = (db_calls w' = db_calls w \<and> cron_state w' = cron_state w)"

text \<open>A crawl result with one post on a site that does not answer.\<close>

definition dead_crawl :: crawl_data where
  "dead_crawl = \<lparr>posts = Some [\<lparr>post_url = Some ''https://dead.example/post'',
     outbound_links = Some []\<rparr>]\<rparr>"

text \<open>A world with a cursor from an earlier cron run, no feeds cache, and that crawl result.\<close>

definition outage_world :: world where
  "outage_world = \<lparr>requests = [], ticks = 0, cron_state = Some (IsoText 5), db_calls = [],
     crawl_results_file = Some dead_crawl, feeds_cache_file = None\<rparr>"

section \<open>Properties\<close>

subsection \<open>Strings\<close>

lemma startswith_iff: "startswith s p \<longleftrightarrow> (\<exists>r. s = p @ r)"
  by (induction s p rule: startswith.induct) auto

lemma str_in_iff: "str_in p s \<longleftrightarrow> (\<exists>pre post. s = pre @ p @ post)"
proof (induction s)
  case Nil
  then show ?case by auto
next
  case (Cons c cs)
  show ?case
  proof
    assume "str_in p (c # cs)"
    then consider "startswith (c # cs) p" | "str_in p cs" by auto
    then show "\<exists>pre post. c # cs = pre @ p @ post"
    proof cases
      case 1
      then obtain r where "c # cs = p @ r" by (auto simp: startswith_iff)
      then have "c # cs = [] @ p @ r" by simp
      then show ?thesis by blast
    next
      case 2
      then obtain pre post where "cs = pre @ p @ post" using Cons.IH by blast
      then have "c # cs = (c # pre) @ p @ post" by simp
      then show ?thesis by blast
    qed
  next
    assume "\<exists>pre post. c # cs = pre @ p @ post"
    then obtain pre post where e: "c # cs = pre @ p @ post" by blast
    show "str_in p (c # cs)"
    proof (cases pre)
      case Nil
      with e have "startswith (c # cs) p" by (auto simp: startswith_iff)
      then show ?thesis by simp
    next
      case (Cons a pre')
      with e have "cs = pre' @ p @ post" by simp
      then have "str_in p cs" using Cons.IH by blast
      then show ?thesis by simp
    qed
  qed
qed

subsection \<open>Deduplication\<close>

lemma dedup_loop_urls:
  "item_url ` set (dedup_loop xs seen acc) =
     item_url ` set acc \<union> ((item_url ` set xs - {[]}) - seen)"
  by (induction xs arbitrary: seen acc) (auto simp: Let_def)

lemma dedup_loop_distinct:
  "distinct (map item_url acc) \<Longrightarrow> item_url ` set acc \<subseteq> seen \<Longrightarrow>
     distinct (map item_url (dedup_loop xs seen acc))"
proof (induction xs arbitrary: seen acc)
  case Nil
  then show ?case by simp
next
  case (Cons a xs)
  show ?case
  proof (cases "item_url a \<noteq> [] \<and> item_url a \<notin> seen")
    case True
    have "distinct (map item_url (acc @ [a]))"
      using Cons.prems True by auto
    moreover have "item_url ` set (acc @ [a]) \<subseteq> insert (item_url a) seen"
      using Cons.prems by auto
    ultimately have "distinct (map item_url (dedup_loop xs (insert (item_url a) seen) (acc @ [a])))"
      by (rule Cons.IH)
    with True show ?thesis by (simp add: Let_def)
  next
    case False
    have "distinct (map item_url (dedup_loop xs seen acc))"
      using Cons.prems by (rule Cons.IH)
    with False show ?thesis by (auto simp: Let_def)
  qed
qed

lemma dedup_loop_nonempty:
  "\<forall>i \<in> set acc. item_url i \<noteq> [] \<Longrightarrow> \<forall>i \<in> set (dedup_loop xs seen acc). item_url i \<noteq> []"
proof (induction xs arbitrary: seen acc)
  case Nil
  then show ?case by simp
next
  case (Cons a xs)
  show ?case
  proof (cases "item_url a \<noteq> [] \<and> item_url a \<notin> seen")
    case True
    have "\<forall>i \<in> set (acc @ [a]). item_url i \<noteq> []"
      using Cons.prems True by auto
    then have "\<forall>i \<in> set (dedup_loop xs (insert (item_url a) seen) (acc @ [a])). item_url i \<noteq> []"
      by (rule Cons.IH)
    with True show ?thesis by (simp add: Let_def)
  next
    case False
    have "\<forall>i \<in> set (dedup_loop xs seen acc). item_url i \<noteq> []"
      using Cons.prems by (rule Cons.IH)
    with False show ?thesis by (auto simp: Let_def)
  qed
qed

text \<open>
  C1 (as the code has it). The claim that an item with an empty URL always appears in
  the deduplicated output fails: \<^verbatim>\<open>if url and url not in seen_urls\<close> skips
  such an item. What holds for every input sequence: no item of the output has an
  empty URL, the URLs of the output are exactly the non-empty URLs of the input,
  and no URL occurs twice in the output.
\<close>

theorem empty_url_items_dropped:
  "(\<forall>i \<in> set (deduplicate all_items). item_url i \<noteq> [])
   \<and> item_url ` set (deduplicate all_items) = item_url ` set all_items - {[]}
   \<and> distinct (map item_url (deduplicate all_items))"
  unfolding deduplicate_def
  using dedup_loop_nonempty[of "[]" all_items "{}"] dedup_loop_distinct[of "[]" "{}" all_items]
  by (simp add: dedup_loop_urls)

theorem empty_url_items_dropped_witness:
  "deduplicate [linkless_item, post_a, linkless_item, post_a_again] = [post_a]
   \<and> linkless_item \<notin> set (deduplicate [linkless_item, post_a, linkless_item, post_a_again])
   \<and> item_url ` set (deduplicate [linkless_item, post_a, linkless_item, post_a_again])
       = {''https://a.example/x''}
   \<and> distinct (map item_url (deduplicate [linkless_item, post_a, linkless_item, post_a_again]))"
  using empty_url_items_dropped[of "[linkless_item, post_a, linkless_item, post_a_again]"]
  by (simp add: deduplicate_def linkless_item_def post_a_def post_a_again_def)

text \<open>
  C1 as stated fails on a sequence of one item without a link: the item has an
  empty URL, is in the input, and is not in the output.
\<close>

theorem empty_url_item_kept_counterexample:
  "item_url linkless_item = [] \<and> linkless_item \<in> set [linkless_item]
   \<and> linkless_item \<notin> set (deduplicate [linkless_item])"
  by (simp add: deduplicate_def linkless_item_def)

subsection \<open>The exclusion filter\<close>

text \<open>
  C10. A domain passes the exclusion filter of \<^verbatim>\<open>run_sync\<close> exactly when it is
  among the extracted domains and no entry of the skip set (the built-in hosts
  and \<^verbatim>\<open>EXCLUDED_RSS_DOMAINS\<close>) occurs in it as a substring: the match is by
  substring, not by host equality.
\<close>

theorem exclusion_is_substring_match:
  "d \<in> filter_domains domains \<longleftrightarrow>
     d \<in> domains \<and> \<not> (\<exists>skip \<in> skip_domains. \<exists>pre post. d = pre @ skip @ post)"
  by (simp add: filter_domains_def str_in_iff)

theorem exclusion_is_substring_match_witness:
  "''github.com.mirror.example'' \<notin> filter_domains {''github.com.mirror.example'', ''blog.example''}
   \<and> ''blog.example'' \<in> filter_domains {''github.com.mirror.example'', ''blog.example''}"
  using exclusion_is_substring_match[of "''github.com.mirror.example''"
          "{''github.com.mirror.example'', ''blog.example''}", unfolded str_in_iff[symmetric]]
        exclusion_is_substring_match[of "''blog.example''"
          "{''github.com.mirror.example'', ''blog.example''}", unfolded str_in_iff[symmetric]]
  by (simp add: skip_domains_def EXCLUDED_RSS_DOMAINS_def)

subsection \<open>Feed discovery and the cache\<close>

text \<open>
  C6. When the cache entry of the domain is the NoFeed variant, \<^verbatim>\<open>discover_rss_feed\<close>
  returns none; when it holds a non-empty feed URL, it returns that URL. In both
  cases the cache and the world come back as they were: no request is issued, the
  clock is not read, the entry is not rewritten.
\<close>

theorem cache_hit_without_network:
  "(cache domain = Some c \<and> is_no_feed c
      \<longrightarrow> discover_rss_feed e domain cache w = (None, cache, w))
   \<and> (cache domain = Some c \<and> ce_feed_url c = Some f \<and> f \<noteq> []
      \<longrightarrow> discover_rss_feed e domain cache w = (Some f, cache, w))"
  by (simp add: discover_rss_feed_def cache_lookup_def is_no_feed_def truthy_def)

theorem cache_hit_without_network_witness:
  "discover_rss_feed blog_env ''dead.example'' seeded_cache world0 = (None, seeded_cache, world0)
   \<and> discover_rss_feed blog_env ''a.example'' seeded_cache world0
       = (Some ''https://a.example/feed'', seeded_cache, world0)
   \<and> requests (snd (snd (discover_rss_feed blog_env ''dead.example'' seeded_cache world0))) = []"
  using cache_hit_without_network[of seeded_cache "''dead.example''" no_feed_entry blog_env world0]
    cache_hit_without_network[of seeded_cache "''a.example''" resolved_entry blog_env world0 "''https://a.example/feed''"]
  by (simp add: seeded_cache_def no_feed_entry_def resolved_entry_def is_no_feed_def truthy_def world0_def)

text \<open>
  C9. A call of \<^verbatim>\<open>discover_rss_feed\<close> on domain \<open>d\<close> leaves the cache entry of
  every other domain as it was, and afterwards \<open>d\<close> has an entry, which is a
  Resolved or a NoFeed one.
\<close>

theorem discovery_touches_only_its_domain:
  assumes "discover_rss_feed e d cache w = (r, cache', w')"
  shows "(\<forall>d'. d' \<noteq> d \<longrightarrow> cache' d' = cache d')
         \<and> (\<exists>c. cache' d = Some c \<and> (is_resolved c \<or> is_no_feed c))"
  using assms
  by (auto simp: discover_rss_feed_def cache_lookup_def is_resolved_def is_no_feed_def
        truthy_def Let_def split: option.splits if_splits prod.splits)


theorem discovery_touches_only_its_domain_witness:
  "fst (discover_rss_feed blog_env ''blog.example'' seeded_cache world0) = Some ''https://blog.example/rss.xml''
   \<and> fst (snd (discover_rss_feed blog_env ''blog.example'' seeded_cache world0)) ''a.example''
       = seeded_cache ''a.example''
   \<and> fst (snd (discover_rss_feed blog_env ''blog.example'' seeded_cache world0)) ''blog.example''
       = Some \<lparr>ce_feed_url = Some ''https://blog.example/rss.xml'', ce_discovered_at = Some 0,
                ce_no_feed = None, ce_checked_at = None\<rparr>"
proof -
  have run: "discover_rss_feed blog_env ''blog.example'' seeded_cache world0
      = (fst (discover_rss_feed blog_env ''blog.example'' seeded_cache world0),
         fst (snd (discover_rss_feed blog_env ''blog.example'' seeded_cache world0)),
         snd (snd (discover_rss_feed blog_env ''blog.example'' seeded_cache world0)))"
    by simp
  show ?thesis
    using discovery_touches_only_its_domain[OF run]
    by (simp add: discover_rss_feed_def cache_lookup_def seeded_cache_def discover_rss_from_html_def
        requests_get_def blog_env_def html_page_def raises_for_status_def FEED_LINK_TYPES_def
        soup_find_def link_matches_def atom_link_def rss_link_def truthy_def datetime_now_def world0_def)
qed

subsection \<open>Feed discovery from HTML\<close>

lemma find_first_split:
  "find P xs = Some x \<Longrightarrow> \<exists>pre post. xs = pre @ x # post \<and> P x \<and> (\<forall>y \<in> set pre. \<not> P y)"
proof (induction xs)
  case Nil
  then show ?case by simp
next
  case (Cons a xs)
  show ?case
  proof (cases "P a")
    case True
    with Cons.prems have "a = x" by simp
    with True have "a # xs = [] @ x # xs \<and> P x \<and> (\<forall>y \<in> set []. \<not> P y)" by simp
    then show ?thesis by blast
  next
    case False
    with Cons.prems have "find P xs = Some x" by simp
    then obtain pre post where "xs = pre @ x # post" "P x" "\<forall>y \<in> set pre. \<not> P y"
      using Cons.IH by blast
    with False have "a # xs = (a # pre) @ x # post \<and> P x \<and> (\<forall>y \<in> set (a # pre). \<not> P y)"
      by simp
    then show ?thesis by blast
  qed
qed

lemma link_type_loop_skip:
  "\<forall>t' \<in> set before. \<forall>l. soup_find soup t' = Some l \<longrightarrow> \<not> truthy (link_href l) \<Longrightarrow>
     link_type_loop e u soup (before @ rest) = link_type_loop e u soup rest"
  by (induction before) (auto simp: truthy_def split: option.splits)

text \<open>
  C3 (as the code has it). \<^verbatim>\<open>discover_rss_from_html\<close> tries the three media types
  in the order \<^verbatim>\<open>application/rss+xml\<close>, \<^verbatim>\<open>application/atom+xml\<close>,
  \<^verbatim>\<open>application/xml\<close>. For a fetched page: if, for every type tried before \<open>t\<close>,
  the page has no alternate link of that type or the earliest one has no href, and
  the earliest alternate link of type \<open>t\<close> has the non-empty href \<open>h\<close>, then the
  result is \<open>h\<close>, joined to the page URL when it does not start with \<^verbatim>\<open>http\<close>
  (none when \<^verbatim>\<open>urljoin\<close> raises). That link is the first of type \<open>t\<close> in
  document order; links of the other types before it do not matter.
\<close>

theorem html_discovery_by_type_priority:
  assumes "http_get e u = Some response" and "\<not> raises_for_status response"
    and "FEED_LINK_TYPES = before @ t # after"
    and "\<forall>t' \<in> set before. \<forall>l'. soup_find (html_links e (resp_body response)) t' = Some l'
            \<longrightarrow> \<not> truthy (link_href l')"
    and "soup_find (html_links e (resp_body response)) t = Some l"
    and "link_href l = Some h" and "h \<noteq> []"
  shows "fst (discover_rss_from_html e u w) =
           (if startswith h ''http'' then Some h
            else (case urljoin e u h of Inl err \<Rightarrow> None | Inr joined \<Rightarrow> Some joined))
         \<and> (\<exists>pre post. html_links e (resp_body response) = pre @ l # post
               \<and> link_matches t l \<and> (\<forall>x \<in> set pre. \<not> link_matches t x))"
proof
  have "link_type_loop e u (html_links e (resp_body response)) FEED_LINK_TYPES
          = link_type_loop e u (html_links e (resp_body response)) (t # after)"
    unfolding assms(3) using assms(4) by (rule link_type_loop_skip)
  also have "\<dots> = (if startswith h ''http'' then Inr (Some h)
            else (case urljoin e u h of Inl err \<Rightarrow> Inl err | Inr joined \<Rightarrow> Inr (Some joined)))"
    using assms(5-7) by simp
  finally show "fst (discover_rss_from_html e u w) =
           (if startswith h ''http'' then Some h
            else (case urljoin e u h of Inl err \<Rightarrow> None | Inr joined \<Rightarrow> Some joined))"
    using assms(1,2)
    by (simp add: discover_rss_from_html_def requests_get_def split: sum.splits)
next
  show "\<exists>pre post. html_links e (resp_body response) = pre @ l # post
               \<and> link_matches t l \<and> (\<forall>x \<in> set pre. \<not> link_matches t x)"
    using assms(5) unfolding soup_find_def by (rule find_first_split)
qed

theorem html_discovery_by_type_priority_witness:
  "fst (discover_rss_from_html blog_env ''https://blog.example'' world0) = Some ''https://blog.example/rss.xml''
   \<and> html_links blog_env (resp_body html_page) = [atom_link] @ rss_link # []
   \<and> link_matches ''application/rss+xml'' rss_link
   \<and> \<not> link_matches ''application/rss+xml'' atom_link
   \<and> fst (discover_rss_from_html blog_env ''https://atom.example'' world0)
       = Some ''https://blog.example/atom.xml''
   \<and> soup_find (html_links blog_env (resp_body atom_only_page)) ''application/rss+xml''
       = Some hrefless_rss_link"
  using html_discovery_by_type_priority[of blog_env "''https://blog.example''" html_page "[]"
      "''application/rss+xml''" "[''application/atom+xml'', ''application/xml'']" rss_link "''/rss.xml''" world0]
    html_discovery_by_type_priority[of blog_env "''https://atom.example''" atom_only_page
      "[''application/rss+xml'']" "''application/atom+xml''" "[''application/xml'']" atom_link
      "''https://blog.example/atom.xml''" world0]
  by (simp add: blog_env_def html_page_def atom_only_page_def raises_for_status_def FEED_LINK_TYPES_def
        soup_find_def link_matches_def atom_link_def rss_link_def hrefless_rss_link_def truthy_def)

text \<open>
  C3 as stated fails on a page that declares an Atom link and then an RSS link:
  the first alternate link in document order is the Atom one, and the function
  returns the RSS one.
\<close>

theorem first_link_in_document_counterexample:
  "first_link_in_document_order (html_links blog_env (resp_body html_page)) = Some atom_link
   \<and> link_href atom_link = Some ''https://blog.example/atom.xml''
   \<and> http_get blog_env ''https://blog.example'' = Some html_page
   \<and> fst (discover_rss_from_html blog_env ''https://blog.example'' world0)
       = Some ''https://blog.example/rss.xml''"
  by (simp add: first_link_in_document_order_def blog_env_def html_page_def raises_for_status_def
        FEED_LINK_TYPES_def soup_find_def link_matches_def atom_link_def rss_link_def
        discover_rss_from_html_def requests_get_def)

subsection \<open>Fetching and parsing a feed\<close>

lemma pub_date_of_first_converting:
  "pub_date_of entry =
     (case published_parsed entry of
        Converts t \<Rightarrow> Some t
      | _ \<Rightarrow> (case updated_parsed entry of
                Converts t \<Rightarrow> Some t
              | _ \<Rightarrow> (case created_parsed entry of Converts t \<Rightarrow> Some t | _ \<Rightarrow> None)))"
  by (simp add: pub_date_of_def split: date_field.splits)

lemma entries_loop_filter:
  assumes "urlparse_netloc e u = Inr netloc"
    and "\<forall>entry \<in> set (filter (\<lambda>entry. \<not> before_cutoff (pub_date_of entry) cutoff) es).
            clean_summary e (raw_summary entry) = Inr (summary_of entry)"
  shows "entries_loop e u cutoff es items =
           Inr (items @ map (\<lambda>entry. make_item netloc (summary_of entry) entry)
                          (filter (\<lambda>entry. \<not> before_cutoff (pub_date_of entry) cutoff) es))"
  using assms(2)
proof (induction es arbitrary: items)
  case Nil
  then show ?case by simp
next
  case (Cons x es)
  have rest: "\<forall>entry \<in> set (filter (\<lambda>entry. \<not> before_cutoff (pub_date_of entry) cutoff) es).
            clean_summary e (raw_summary entry) = Inr (summary_of entry)"
    using Cons.prems by simp
  show ?case
  proof (cases "before_cutoff (pub_date_of x) cutoff")
    case True
    then show ?thesis using Cons.IH[OF rest] by simp
  next
    case False
    then have "clean_summary e (raw_summary x) = Inr (summary_of x)"
      using Cons.prems by simp
    then have "append_item e u x items = Inr (items @ [make_item netloc (summary_of x) x])"
      using assms(1) by (simp add: append_item_def)
    then show ?thesis using False Cons.IH[OF rest] by simp
  qed
qed

lemma entries_loop_rejected:
  assumes "entry \<in> set es" and "\<not> before_cutoff (pub_date_of entry) cutoff"
    and "clean_summary e (raw_summary entry) = Inl err"
  shows "\<exists>err'. entries_loop e u cutoff es items = Inl err'"
  using assms(1)
proof (induction es arbitrary: items)
  case Nil
  then show ?case by simp
next
  case (Cons x es)
  show ?case
  proof (cases "x = entry")
    case True
    then show ?thesis using assms(2,3) by (simp add: append_item_def)
  next
    case False
    then have "entry \<in> set es" using Cons.prems by simp
    then have "\<And>items. \<exists>err'. entries_loop e u cutoff es items = Inl err'"
      using Cons.IH by blast
    then show ?thesis by (auto split: sum.splits)
  qed
qed

text \<open>
  C5 (as the code has it). Take a feed that was fetched and parsed, its first
  \<^verbatim>\<open>MAX_FEED_ITEMS\<close> entries, and the cutoff in force (the one given, or the clock
  reading minus \<^verbatim>\<open>DAYS_LOOKBACK\<close> days). An entry is kept when it has no
  resolvable date or a date equal to or later than the cutoff. If the summary
  clean-up of every kept entry and \<^verbatim>\<open>urlparse(feed_url)\<close> succeed, \<^verbatim>\<open>parse_feed\<close>
  returns the items of exactly the kept entries, in the order of the feed: an entry
  dated strictly before the cutoff is left out and nothing is reordered. If the
  summary clean-up of one kept entry raises, \<^verbatim>\<open>parse_feed\<close> returns no item at
  all.
\<close>

theorem parse_feed_cutoff_filter:
  assumes "http_get e u = Some response" and "\<not> raises_for_status response"
    and "feedparser_parse e (resp_body response) = Some feed"
    and "cutoff = (case cutoff_date of
                     None \<Rightarrow> clock e (ticks w) - timedelta_days DAYS_LOOKBACK
                   | Some c \<Rightarrow> c)"
    and "kept = filter (\<lambda>entry. case pub_date_of entry of None \<Rightarrow> True | Some t \<Rightarrow> cutoff \<le> t)
                  (take MAX_FEED_ITEMS (entries feed))"
  shows "(urlparse_netloc e u = Inr netloc
            \<and> (\<forall>entry \<in> set kept. clean_summary e (raw_summary entry) = Inr (summary_of entry))
          \<longrightarrow> fst (parse_feed e u cutoff_date w)
                = map (\<lambda>entry. make_item netloc (summary_of entry) entry) kept)
         \<and> ((\<exists>entry \<in> set kept. \<exists>err. clean_summary e (raw_summary entry) = Inl err)
          \<longrightarrow> fst (parse_feed e u cutoff_date w) = [])"
proof -
  have keep: "(\<lambda>entry. case pub_date_of entry of None \<Rightarrow> True | Some t \<Rightarrow> cutoff \<le> t)
      = (\<lambda>entry. \<not> before_cutoff (pub_date_of entry) cutoff)"
    by (auto simp: before_cutoff_def fun_eq_iff split: option.splits)
  have kept: "kept = filter (\<lambda>entry. \<not> before_cutoff (pub_date_of entry) cutoff)
                       (take MAX_FEED_ITEMS (entries feed))"
    using assms(5) keep by simp
  have body: "fst (parse_feed_body e u cutoff_date w) =
      (if bozo feed \<and> entries feed = [] then Inr []
       else entries_loop e u cutoff (take MAX_FEED_ITEMS (entries feed)) [])"
    using assms(1-4)
    by (simp add: parse_feed_body_def requests_get_def datetime_now_def split_beta
          split: option.splits)
  have result: "fst (parse_feed e u cutoff_date w) =
      (case fst (parse_feed_body e u cutoff_date w) of Inl err \<Rightarrow> [] | Inr items \<Rightarrow> items)"
    by (simp add: parse_feed_def split: prod.splits sum.splits)
  show ?thesis
  proof (intro conjI impI)
    assume ok: "urlparse_netloc e u = Inr netloc
            \<and> (\<forall>entry \<in> set kept. clean_summary e (raw_summary entry) = Inr (summary_of entry))"
    then have "entries_loop e u cutoff (take MAX_FEED_ITEMS (entries feed)) []
        = Inr ([] @ map (\<lambda>entry. make_item netloc (summary_of entry) entry) kept)"
      unfolding kept by (intro entries_loop_filter) auto
    moreover have "entries feed = [] \<Longrightarrow> kept = []" using kept by simp
    ultimately show "fst (parse_feed e u cutoff_date w)
                = map (\<lambda>entry. make_item netloc (summary_of entry) entry) kept"
      using body result by auto
  next
    assume "\<exists>entry \<in> set kept. \<exists>err. clean_summary e (raw_summary entry) = Inl err"
    then obtain entry err where m: "entry \<in> set (take MAX_FEED_ITEMS (entries feed))"
      and k: "\<not> before_cutoff (pub_date_of entry) cutoff"
      and r: "clean_summary e (raw_summary entry) = Inl err"
      unfolding kept by auto
    obtain err' where "entries_loop e u cutoff (take MAX_FEED_ITEMS (entries feed)) [] = Inl err'"
      using entries_loop_rejected[OF m k r] by blast
    moreover have "entries feed \<noteq> []" using m by auto
    ultimately show "fst (parse_feed e u cutoff_date w) = []"
      using body result by simp
  qed
qed

theorem parse_feed_cutoff_filter_witness:
  "fst (parse_feed blog_env ''https://blog.example/rss.xml'' (Some 10) world0)
     = [make_item ''blog.example'' [] undated_entry, make_item ''blog.example'' ''New post'' new_entry]
   \<and> fst (parse_feed blog_env ''https://blog.example/rss.xml'' None world0)
     = [make_item ''blog.example'' [] old_entry, make_item ''blog.example'' [] undated_entry,
        make_item ''blog.example'' ''New post'' new_entry]
   \<and> fst (parse_feed blog_env ''https://blog.example/notes.xml'' (Some 10) world0) = []
   \<and> pub_date_of old_entry = Some 5 \<and> pub_date_of undated_entry = None
   \<and> pub_date_of new_entry = Some 10"
  using parse_feed_cutoff_filter[where e = blog_env and u = "''https://blog.example/rss.xml''"
          and response = rss_page and feed = blog_feed and cutoff = 10 and cutoff_date = "Some 10"
          and w = world0 and kept = "[undated_entry, new_entry]" and netloc = "''blog.example''"
          and summary_of = "\<lambda>entry. case entry_summary entry of None \<Rightarrow> [] | Some s \<Rightarrow> s"]
    parse_feed_cutoff_filter[where e = blog_env and u = "''https://blog.example/rss.xml''"
          and response = rss_page and feed = blog_feed and cutoff = "- 604800000000"
          and cutoff_date = None and w = world0 and kept = "[old_entry, undated_entry, new_entry]"
          and netloc = "''blog.example''" and summary_of = "\<lambda>entry. case entry_summary entry of None \<Rightarrow> [] | Some s \<Rightarrow> s"]
    parse_feed_cutoff_filter[where e = blog_env and u = "''https://blog.example/notes.xml''"
          and response = notes_page and feed = notes_feed and cutoff = 10 and cutoff_date = "Some 10"
          and w = world0 and kept = "[undated_entry, rejected_entry]" and netloc = "''blog.example''"
          and summary_of = "\<lambda>entry. case entry_summary entry of None \<Rightarrow> [] | Some s \<Rightarrow> s"]
  by (simp add: blog_env_def rss_page_def notes_page_def raises_for_status_def blog_feed_def
        notes_feed_def MAX_FEED_ITEMS_def DAYS_LOOKBACK_def timedelta_days_def world0_def
        pub_date_of_def old_entry_def undated_entry_def new_entry_def rejected_entry_def
        plain_entry_def clean_summary_def raw_summary_def
        urlparse_netloc_def split_netloc_def is_ascii_def is_ascii_alpha_def is_scheme_char_def)

text \<open>
  C5 as stated fails on a feed that is fetched and parsed and has an undated entry
  followed by an entry whose summary the HTML parser rejects: the undated entry is
  among the first \<^verbatim>\<open>MAX_FEED_ITEMS\<close> entries and has no resolvable date, and
  \<^verbatim>\<open>parse_feed\<close> returns no item.
\<close>

theorem undated_entry_dropped_counterexample:
  "http_get blog_env ''https://blog.example/notes.xml'' = Some notes_page
   \<and> \<not> raises_for_status notes_page
   \<and> feedparser_parse blog_env (resp_body notes_page) = Some notes_feed
   \<and> undated_entry \<in> set (take MAX_FEED_ITEMS (entries notes_feed))
   \<and> pub_date_of undated_entry = None
   \<and> fst (parse_feed blog_env ''https://blog.example/notes.xml'' (Some 10) world0) = []"
  by (simp add: blog_env_def notes_page_def raises_for_status_def notes_feed_def MAX_FEED_ITEMS_def
        pub_date_of_def undated_entry_def rejected_entry_def plain_entry_def world0_def
        parse_feed_def parse_feed_body_def requests_get_def before_cutoff_def append_item_def
        clean_summary_def raw_summary_def
        urlparse_netloc_def split_netloc_def is_ascii_def is_ascii_alpha_def is_scheme_char_def)

text \<open>
  C8. \<^verbatim>\<open>parse_feed\<close> returns a list on every input. Whatever exception the body of
  its \<^verbatim>\<open>try\<close> block raises, the result is the empty list: so it is when the
  request raises, when the status is an error, when the parser raises, and when the
  parser reports a malformed document without entries. In the loop of \<^verbatim>\<open>run_sync\<close>
  a feed that gives the empty list adds nothing, and the loop goes on with the
  remaining feeds.
\<close>

theorem parse_feed_failure_is_empty:
  "(fst (parse_feed_body e u c w) = Inl err \<longrightarrow> fst (parse_feed e u c w) = [])
   \<and> (http_get e u = None \<longrightarrow> fst (parse_feed e u c w) = [])
   \<and> (http_get e u = Some response \<and> raises_for_status response
        \<longrightarrow> fst (parse_feed e u c w) = [])
   \<and> (http_get e u = Some response \<and> \<not> raises_for_status response
        \<and> feedparser_parse e (resp_body response) = None
        \<longrightarrow> fst (parse_feed e u c w) = [])
   \<and> (http_get e u = Some response \<and> \<not> raises_for_status response
        \<and> feedparser_parse e (resp_body response) = Some feed \<and> bozo feed \<and> entries feed = []
        \<longrightarrow> fst (parse_feed e u c w) = [])
   \<and> (fst (parse_feed e u (Some cutoff) w) = []
        \<longrightarrow> parse_loop e cutoff ((d, u) # rest) all_items w
            = parse_loop e cutoff rest all_items (snd (parse_feed e u (Some cutoff) w)))"
  by (auto simp: parse_feed_def parse_feed_body_def requests_get_def split: prod.splits sum.splits)

theorem parse_feed_failure_is_empty_witness:
  "fst (parse_feed blog_env ''https://dead.example/feed'' (Some 10) world0) = []
   \<and> fst (parse_feed blog_env ''https://blog.example/gone'' (Some 10) world0) = []
   \<and> fst (parse_feed blog_env ''https://blog.example/garbage'' (Some 10) world0) = []
   \<and> fst (parse_feed blog_env ''https://blog.example/malformed'' (Some 10) world0) = []
   \<and> fst (parse_loop blog_env 10
        [(''dead.example'', ''https://dead.example/feed''), (''blog.example'', ''https://blog.example/rss.xml'')]
        [] world0)
      = [make_item ''blog.example'' [] undated_entry, make_item ''blog.example'' ''New post'' new_entry]"
  using parse_feed_failure_is_empty[of blog_env "''https://dead.example/feed''" "Some 10" world0
          RequestException not_found_page blog_feed 10 "''dead.example''"
          "[(''blog.example'', ''https://blog.example/rss.xml'')]" "[]"]
        parse_feed_failure_is_empty[of blog_env "''https://blog.example/gone''" "Some 10" world0
          HTTPError not_found_page blog_feed 10 "''blog.example''" "[]" "[]"]
        parse_feed_failure_is_empty[of blog_env "''https://blog.example/garbage''" "Some 10" world0
          ParserError garbage_page blog_feed 10 "''blog.example''" "[]" "[]"]
        parse_feed_failure_is_empty[of blog_env "''https://blog.example/malformed''" "Some 10" world0
          ParserError malformed_page "\<lparr>bozo = True, entries = []\<rparr>" 10 "''blog.example''" "[]" "[]"]
  by (simp add: parse_feed_def parse_feed_body_def requests_get_def blog_env_def rss_page_def
        not_found_page_def garbage_page_def malformed_page_def
        raises_for_status_def blog_feed_def MAX_FEED_ITEMS_def
        pub_date_of_def old_entry_def undated_entry_def new_entry_def plain_entry_def
        before_cutoff_def append_item_def clean_summary_def raw_summary_def make_item_def
        urlparse_netloc_def split_netloc_def is_ascii_def is_ascii_alpha_def is_scheme_char_def
        world0_def)

subsection \<open>Domain extraction\<close>

lemma urlparse_netloc_empty: "urlparse_netloc e [] = Inr []"
  by (simp add: urlparse_netloc_def split_netloc_def is_ascii_def)

lemma urlparse_netloc_plain:
  assumes "is_ascii (split_netloc u)"
    and "CHR ''['' \<notin> set (split_netloc u)" and "CHR '']'' \<notin> set (split_netloc u)"
  shows "urlparse_netloc e u = Inr (split_netloc u)"
  using assms by (simp add: urlparse_netloc_def)

lemma urlparse_netloc_rejected_host:
  "urlparse_netloc blog_env ''http://[not-ip]/feed'' = Inl ValueError"
  by (simp add: urlparse_netloc_def split_netloc_def is_ascii_def is_ascii_alpha_def
        is_scheme_char_def blog_env_def)

lemma urlparse_netloc_no_delimiter:
  assumes "urlparse_netloc e u = Inr d"
  shows "CHR ''/'' \<notin> set d \<and> CHR ''?'' \<notin> set d \<and> CHR ''#'' \<notin> set d"
proof -
  have "d = split_netloc u"
    using assms by (auto simp: urlparse_netloc_def Let_def split: if_splits)
  then have "\<exists>rest. d = takeWhile (\<lambda>c. c \<notin> set ''/?#'') rest \<or> d = []"
    by (auto simp: split_netloc_def Let_def split: if_splits)
  then obtain rest where "d = takeWhile (\<lambda>c. c \<notin> set ''/?#'') rest \<or> d = []" by blast
  then have "\<forall>c \<in> set d. c \<notin> set ''/?#''"
    by (auto dest: set_takeWhileD)
  then show ?thesis by auto
qed

lemma netlocs_of_append: "netlocs_of e (us @ vs) = netlocs_of e us \<union> netlocs_of e vs"
  by (auto simp: netlocs_of_def)

lemma netlocs_of_Nil: "netlocs_of e [] = {}"
  by (simp add: netlocs_of_def)

lemma add_netloc_domains:
  "add_netloc e u domains = Inr domains' \<Longrightarrow> domains' = domains \<union> netlocs_of e [u]"
  by (auto simp: add_netloc_def netlocs_of_def split: sum.splits if_splits)

lemma links_loop_domains:
  "links_loop e ls domains = Inr domains' \<Longrightarrow> domains' = domains \<union> netlocs_of e ls"
proof (induction ls arbitrary: domains)
  case Nil
  then show ?case by (simp add: netlocs_of_Nil)
next
  case (Cons l ls)
  from Cons.prems obtain d1 where a: "add_netloc e l domains = Inr d1"
    and b: "links_loop e ls d1 = Inr domains'"
    by (auto split: sum.splits)
  have "netlocs_of e (l # ls) = netlocs_of e [l] \<union> netlocs_of e ls"
    using netlocs_of_append[of e "[l]" ls] by simp
  then show ?case
    using add_netloc_domains[OF a] Cons.IH[OF b] by auto
qed

lemma post_url_domains:
  assumes "(if u \<noteq> [] then add_netloc e u domains else Inr domains) = Inr d1"
    and "u = (case pu of None \<Rightarrow> [] | Some v \<Rightarrow> v)"
  shows "d1 = domains \<union> netlocs_of e (case pu of None \<Rightarrow> [] | Some v \<Rightarrow> [v])"
proof (cases "u = []")
  case True
  then have "netlocs_of e (case pu of None \<Rightarrow> [] | Some v \<Rightarrow> [v]) = {}"
    using assms(2) by (auto simp: netlocs_of_def urlparse_netloc_empty split: option.splits)
  with True assms(1) show ?thesis by simp
next
  case False
  then have "(case pu of None \<Rightarrow> [] | Some v \<Rightarrow> [v]) = [u]"
    using assms(2) by (auto split: option.splits)
  with False assms(1) show ?thesis by (simp add: add_netloc_domains)
qed

lemma posts_loop_domains:
  "posts_loop e ps domains = Inr domains' \<Longrightarrow>
     domains' = domains \<union> netlocs_of e (concat (map post_urls ps))"
proof (induction ps arbitrary: domains)
  case Nil
  then show ?case by (simp add: netlocs_of_Nil)
next
  case (Cons p ps)
  define u where "u = (case post_url p of None \<Rightarrow> [] | Some v \<Rightarrow> v)"
  define ls where "ls = (case outbound_links p of None \<Rightarrow> [] | Some ls \<Rightarrow> ls)"
  from Cons.prems obtain d1 d2
    where a: "(if u \<noteq> [] then add_netloc e u domains else Inr domains) = Inr d1"
      and b: "links_loop e ls d1 = Inr d2"
      and c: "posts_loop e ps d2 = Inr domains'"
    unfolding u_def ls_def by (auto simp: Let_def split: sum.splits)
  have 1: "d1 = domains \<union> netlocs_of e (case post_url p of None \<Rightarrow> [] | Some v \<Rightarrow> [v])"
    using a u_def by (rule post_url_domains)
  have 2: "d2 = d1 \<union> netlocs_of e ls"
    using b by (rule links_loop_domains)
  have 3: "domains' = d2 \<union> netlocs_of e (concat (map post_urls ps))"
    using c by (rule Cons.IH)
  have "netlocs_of e (concat (map post_urls (p # ps)))
      = netlocs_of e (case post_url p of None \<Rightarrow> [] | Some v \<Rightarrow> [v]) \<union> netlocs_of e ls
        \<union> netlocs_of e (concat (map post_urls ps))"
    by (simp add: post_urls_def ls_def netlocs_of_append Un_assoc)
  with 1 2 3 show ?case by auto
qed

text \<open>
  C4 (as the code has it). When \<^verbatim>\<open>extract_domains_from_crawl\<close> returns, its set is
  exactly the set of non-empty network locations that \<^verbatim>\<open>urlparse\<close> gives for the
  post URLs and the outbound links, unchanged; so each domain is without scheme and
  path (it has no \<^verbatim>\<open>/\<close>, \<^verbatim>\<open>?\<close> or \<^verbatim>\<open>#\<close>), and a host that occurs several times
  is one element of the set. Letter case and a leading \<^verbatim>\<open>www.\<close> are kept as the
  URL has them.
\<close>

theorem extracted_domains_are_raw_netlocs:
  assumes "extract_domains_from_crawl e cd = Inr domains"
  shows "domains = {d. d \<noteq> [] \<and> (\<exists>u \<in> set (crawl_urls cd). urlparse_netloc e u = Inr d)}
         \<and> (\<forall>d \<in> domains. CHR ''/'' \<notin> set d \<and> CHR ''?'' \<notin> set d \<and> CHR ''#'' \<notin> set d)"
proof -
  have eq: "domains = {d. d \<noteq> [] \<and> (\<exists>u \<in> set (crawl_urls cd). urlparse_netloc e u = Inr d)}"
    using posts_loop_domains[OF assms[unfolded extract_domains_from_crawl_def]]
    by (simp add: crawl_urls_def netlocs_of_def)
  moreover have "\<forall>d \<in> domains. CHR ''/'' \<notin> set d \<and> CHR ''?'' \<notin> set d \<and> CHR ''#'' \<notin> set d"
    using eq urlparse_netloc_no_delimiter by blast
  ultimately show ?thesis by blast
qed

lemma mixed_case_crawl_domains:
  "extract_domains_from_crawl blog_env mixed_case_crawl = Inr {''www.Example.com''}"
  by (simp add: extract_domains_from_crawl_def mixed_case_crawl_def add_netloc_def
        urlparse_netloc_def split_netloc_def is_ascii_def is_ascii_alpha_def is_scheme_char_def)

theorem extracted_domains_are_raw_netlocs_witness:
  "extract_domains_from_crawl blog_env mixed_case_crawl = Inr {''www.Example.com''}
   \<and> urlparse_netloc blog_env ''https://www.Example.com/post/1'' = Inr ''www.Example.com''
   \<and> CHR ''/'' \<notin> set ''www.Example.com''"
  using extracted_domains_are_raw_netlocs[OF mixed_case_crawl_domains]
  by (simp add: mixed_case_crawl_domains urlparse_netloc_def split_netloc_def is_ascii_def
        is_ascii_alpha_def is_scheme_char_def)

lemma lower_example: "lower ''www.Example.com'' = ''www.example.com''"
  by code_simp

text \<open>
  C4 as stated fails on a crawl result with the URL
  \<^verbatim>\<open>https://www.Example.com/post/1\<close>: the extracted domain is not lowercase and
  starts with \<^verbatim>\<open>www.\<close>.
\<close>

theorem normalized_host_counterexample:
  "extract_domains_from_crawl blog_env mixed_case_crawl = Inr {''www.Example.com''}
   \<and> lower ''www.Example.com'' \<noteq> ''www.Example.com''
   \<and> startswith ''www.Example.com'' ''www.''"
  by (simp add: mixed_case_crawl_domains lower_example)

subsection \<open>The cutoff and the cursor\<close>

lemma db_untouched_refl: "db_untouched w w"
  by (simp add: db_untouched_def)

lemma db_untouched_trans: "db_untouched w w1 \<Longrightarrow> db_untouched w1 w2 \<Longrightarrow> db_untouched w w2"
  by (simp add: db_untouched_def)

lemma requests_get_db: "db_untouched w (snd (requests_get e u w))"
  by (simp add: requests_get_def db_untouched_def)

lemma datetime_now_db: "db_untouched w (snd (datetime_now e w))"
  by (simp add: datetime_now_def db_untouched_def)

lemma discover_rss_from_html_db: "db_untouched w (snd (discover_rss_from_html e u w))"
  by (simp add: discover_rss_from_html_def requests_get_def db_untouched_def
        split: option.splits sum.splits)

lemma probe_loop_db: "db_untouched w (snd (probe_loop e us w))"
proof (induction us arbitrary: w)
  case Nil
  then show ?case by (simp add: db_untouched_refl)
next
  case (Cons u us)
  have step: "db_untouched w (snd (requests_get e u w))" by (rule requests_get_db)
  have rest: "db_untouched (snd (requests_get e u w)) (snd (probe_loop e us (snd (requests_get e u w))))"
    by (rule Cons.IH)
  show ?case
    using step db_untouched_trans[OF step rest]
    by (simp add: split_beta split: option.splits)
qed

lemma try_rss_patterns_db: "db_untouched w (snd (try_rss_patterns e d w))"
  by (simp add: try_rss_patterns_def probe_loop_db)

lemma discover_rss_feed_db: "db_untouched w (snd (snd (discover_rss_feed e d cache w)))"
proof (cases "cache_lookup cache d")
  case (Some r)
  then show ?thesis by (simp add: discover_rss_feed_def db_untouched_refl)
next
  case None
  define r1 where "r1 = discover_rss_from_html e (''https://'' @ d) w"
  define r2 where "r2 = (if \<not> truthy (fst r1)
      then discover_rss_from_html e (''https://www.'' @ d) (snd r1) else (fst r1, snd r1))"
  define r3 where "r3 = (if \<not> truthy (fst r2) then try_rss_patterns e d (snd r2) else (fst r2, snd r2))"
  have 1: "db_untouched w (snd r1)"
    unfolding r1_def by (rule discover_rss_from_html_db)
  have 2: "db_untouched (snd r1) (snd r2)"
    unfolding r2_def by (simp add: discover_rss_from_html_db db_untouched_refl)
  have 3: "db_untouched (snd r2) (snd r3)"
    unfolding r3_def by (simp add: try_rss_patterns_db db_untouched_refl)
  have 4: "db_untouched (snd r3) (snd (datetime_now e (snd r3)))"
    by (rule datetime_now_db)
  have "snd (snd (discover_rss_feed e d cache w)) = snd (datetime_now e (snd r3))"
    using None
    by (simp add: discover_rss_feed_def r1_def r2_def r3_def split_beta Let_def)
  then show ?thesis
    using db_untouched_trans[OF db_untouched_trans[OF db_untouched_trans[OF 1 2] 3] 4] by simp
qed

lemma discover_loop_db:
  "db_untouched w (snd (snd (discover_loop e sd ds cache feed_urls w)))"
proof (induction ds arbitrary: cache feed_urls w)
  case Nil
  then show ?case by (simp add: db_untouched_refl)
next
  case (Cons d ds)
  show ?case
  proof (cases "sd \<and> cache d = None")
    case True
    then show ?thesis using Cons.IH by simp
  next
    case False
    have step: "db_untouched w (snd (snd (discover_rss_feed e d cache w)))"
      by (rule discover_rss_feed_db)
    show ?thesis
      using False db_untouched_trans[OF step Cons.IH]
      by (auto simp: split_beta split: option.splits)
  qed
qed

lemma parse_feed_db: "db_untouched w (snd (parse_feed e u (Some c) w))"
  by (simp add: parse_feed_def parse_feed_body_def requests_get_def db_untouched_def
        split: option.splits sum.splits prod.splits)

lemma parse_loop_db: "db_untouched w (snd (parse_loop e c feeds all_items w))"
proof (induction feeds arbitrary: all_items w)
  case Nil
  then show ?case by (simp add: db_untouched_refl)
next
  case (Cons f feeds)
  obtain d u where f: "f = (d, u)" by (cases f)
  have step: "db_untouched w (snd (parse_feed e u (Some c) w))" by (rule parse_feed_db)
  show ?case
    using db_untouched_trans[OF step Cons.IH] by (simp add: f split_beta)
qed


lemma sync_domains_db_calls:
  assumes "feed_urls = fst (discover_loop e sd (sorted_list_of_set doms) (load_feeds_cache w) [] w)"
  shows "\<exists>extra. db_calls (snd (sync_domains e cm sd v week c doms w)) = db_calls w @ extra
           \<and> GetLastCronRun \<notin> set extra
           \<and> (SetLastCronRun \<in> set extra \<longleftrightarrow> cm \<and> feed_urls \<noteq> [])"
proof -
  define D where "D = discover_loop e sd (sorted_list_of_set doms) (load_feeds_cache w) [] w"
  define w2 where "w2 = save_feeds_cache (fst (snd D)) (snd (snd D))"
  define P where "P = parse_loop e c (fst D) [] w2"
  define unique where "unique = deduplicate (fst P)"
  have fu: "feed_urls = fst D" using assms by (simp add: D_def)
  have "db_untouched w (snd (snd D))" unfolding D_def by (rule discover_loop_db)
  then have c2: "db_calls w2 = db_calls w"
    by (simp add: w2_def save_feeds_cache_def db_untouched_def)
  have "db_untouched w2 (snd P)" unfolding P_def by (rule parse_loop_db)
  then have c3: "db_calls (snd P) = db_calls w" using c2 by (simp add: db_untouched_def)
  have run: "sync_domains e cm sd v week c doms w =
      (if fst D = [] then (0, w2)
       else if unique = [] then (0, if cm then set_last_cron_run e (snd P) else snd P)
       else (let (count, w4) = upsert_articles e unique week (snd P);
                 w5 = (if cm then set_last_cron_run e w4 else w4);
                 w6 = (if v then get_current_stats w5 else w5)
             in (count, w6)))"
    by (simp add: sync_domains_def D_def w2_def P_def unique_def split_beta Let_def)
  show ?thesis
  proof (cases "fst D = []")
    case True
    then have "db_calls (snd (sync_domains e cm sd v week c doms w)) = db_calls w @ []"
      using run c2 by simp
    then show ?thesis using True fu by fastforce
  next
    case False
    let ?extra = "(if unique = [] then [] else [UpsertArticles unique week])
        @ (if cm then [SetLastCronRun] else [])
        @ (if v \<and> unique \<noteq> [] then [GetCurrentStats] else [])"
    have "db_calls (snd (sync_domains e cm sd v week c doms w)) = db_calls w @ ?extra"
      using False run c3
      by (simp add: set_last_cron_run_def upsert_articles_def get_current_stats_def
            datetime_now_def split_beta Let_def)
    moreover have "GetLastCronRun \<notin> set ?extra" by simp
    moreover have "SetLastCronRun \<in> set ?extra \<longleftrightarrow> cm \<and> feed_urls \<noteq> []"
      using False fu by simp
    ultimately show ?thesis by blast
  qed
qed

lemma compute_cutoff_full_db: "db_untouched w (snd (compute_cutoff e False w))"
  by (simp add: compute_cutoff_def datetime_now_def db_untouched_def split_beta)

lemma run_sync_full_db_calls:
  "\<exists>extra. db_calls (snd (run_sync e False sd lim v w)) = db_calls w @ extra
      \<and> GetLastCronRun \<notin> set extra \<and> SetLastCronRun \<notin> set extra"
proof -
  define w1 where "w1 = snd (get_current_week e w)"
  define w2 where "w2 = snd (compute_cutoff e False w1)"
  have c1: "db_calls w1 = db_calls w @ [GetCurrentWeek]"
    by (simp add: w1_def get_current_week_def datetime_now_def split_beta)
  have "db_untouched w1 w2" unfolding w2_def by (rule compute_cutoff_full_db)
  then have c2: "db_calls w2 = db_calls w @ [GetCurrentWeek]"
    using c1 by (simp add: db_untouched_def)
  show ?thesis
  proof (cases "load_crawl_results w2")
    case (Inl err)
    then have "db_calls (snd (run_sync e False sd lim v w)) = db_calls w @ [GetCurrentWeek]"
      using c2 by (simp add: run_sync_def w1_def w2_def split_beta)
    then show ?thesis by simp
  next
    case (Inr cd)
    show ?thesis
    proof (cases "extract_domains_from_crawl e cd")
      case (Inl err)
      then have "db_calls (snd (run_sync e False sd lim v w)) = db_calls w @ [GetCurrentWeek]"
        using Inr c2 by (simp add: run_sync_def w1_def w2_def split_beta)
      then show ?thesis by simp
    next
      case (Inr extracted)
      define limited where "limited = (if lim > 0
          then set (take (nat lim) (list_of_set e (filter_domains extracted)))
          else filter_domains extracted)"
      define week where "week = fst (get_current_week e w)"
      define cutoff where "cutoff = fst (compute_cutoff e False w1)"
      obtain extra where
        e: "db_calls (snd (sync_domains e False sd v week cutoff limited w2)) = db_calls w2 @ extra"
        and g: "GetLastCronRun \<notin> set extra" and s: "SetLastCronRun \<notin> set extra"
        using sync_domains_db_calls[OF refl, of e False sd v week cutoff limited w2] by auto
      have "snd (run_sync e False sd lim v w) = snd (sync_domains e False sd v week cutoff limited w2)"
        using \<open>load_crawl_results w2 = Inr cd\<close> Inr
        by (simp add: run_sync_def w1_def w2_def limited_def week_def cutoff_def split_beta Let_def)
      then have "db_calls (snd (run_sync e False sd lim v w)) = db_calls w @ (GetCurrentWeek # extra)"
        using e c2 by simp
      moreover have "GetLastCronRun \<notin> set (GetCurrentWeek # extra)" using g by simp
      moreover have "SetLastCronRun \<notin> set (GetCurrentWeek # extra)" using s by simp
      ultimately show ?thesis by blast
    qed
  qed
qed

text \<open>
  C7. The cutoff block of \<^verbatim>\<open>run_sync\<close>: in cron mode with a persisted cursor the
  cutoff is the cursor's timestamp; in cron mode without a readable cursor it is
  the clock reading minus \<^verbatim>\<open>CRON_FIRST_RUN_DAYS\<close> days, a window shorter than the
  \<^verbatim>\<open>DAYS_LOOKBACK\<close> days of a full sync; in full mode it is the clock reading minus
  \<^verbatim>\<open>DAYS_LOOKBACK\<close> days, and a whole run in full mode makes no call of
  \<^verbatim>\<open>get_last_cron_run\<close>.
\<close>

theorem cutoff_by_mode:
  "(cron_state w = Some (IsoText t) \<longrightarrow> fst (compute_cutoff e True w) = t)
   \<and> (fst (get_last_cron_run w) = None
        \<longrightarrow> fst (compute_cutoff e True w) = clock e (ticks w) - timedelta_days CRON_FIRST_RUN_DAYS)
   \<and> timedelta_days CRON_FIRST_RUN_DAYS < timedelta_days DAYS_LOOKBACK
   \<and> fst (compute_cutoff e False w) = clock e (ticks w) - timedelta_days DAYS_LOOKBACK
   \<and> filter (\<lambda>c. c = GetLastCronRun) (db_calls (snd (run_sync e False sd lim v w)))
       = filter (\<lambda>c. c = GetLastCronRun) (db_calls w)"
proof -
  obtain extra where "db_calls (snd (run_sync e False sd lim v w)) = db_calls w @ extra"
    and "GetLastCronRun \<notin> set extra"
    using run_sync_full_db_calls[of e sd lim v w] by blast
  then have "filter (\<lambda>c. c = GetLastCronRun) (db_calls (snd (run_sync e False sd lim v w)))
       = filter (\<lambda>c. c = GetLastCronRun) (db_calls w)"
    by (auto simp: filter_empty_conv)
  then show ?thesis
    by (auto simp: compute_cutoff_def get_last_cron_run_def datetime_now_def timedelta_days_def
          CRON_FIRST_RUN_DAYS_def DAYS_LOOKBACK_def split_beta
          split: option.splits stored_text.splits)
qed


theorem cutoff_by_mode_witness:
  "fst (compute_cutoff blog_env True outage_world) = 5
   \<and> fst (compute_cutoff blog_env True world0) = - 86400000000
   \<and> fst (compute_cutoff blog_env False outage_world) = - 604800000000
   \<and> filter (\<lambda>c. c = GetLastCronRun) (db_calls (snd (run_sync blog_env False False 0 True outage_world))) = []"
  using cutoff_by_mode[of outage_world 5 blog_env False 0 True]
    cutoff_by_mode[of world0 5 blog_env False 0 True]
  by (simp add: outage_world_def world0_def get_last_cron_run_def blog_env_def timedelta_days_def
        CRON_FIRST_RUN_DAYS_def DAYS_LOOKBACK_def)


subsection \<open>A cron run that finds no feed\<close>

lemma dead_crawl_domains: "extract_domains_from_crawl blog_env dead_crawl = Inr {''dead.example''}"
  by (simp add: extract_domains_from_crawl_def dead_crawl_def add_netloc_def
        urlparse_netloc_def split_netloc_def is_ascii_def is_ascii_alpha_def is_scheme_char_def)

lemma dead_domain_kept: "filter_domains {''dead.example''} = {''dead.example''}"
  by (auto simp: filter_domains_def skip_domains_def EXCLUDED_RSS_DOMAINS_def)

lemma dead_discovery:
  "fst (discover_rss_feed blog_env ''dead.example'' Map.empty w) = None"
  by (simp add: discover_rss_feed_def cache_lookup_def discover_rss_from_html_def requests_get_def
        blog_env_def truthy_def try_rss_patterns_def RSS_PATTERNS_def datetime_now_def split_beta)


lemma sync_domains_no_feeds:
  assumes "fst (discover_loop e sd (sorted_list_of_set doms) (load_feeds_cache w) [] w) = []"
  shows "fst (sync_domains e cm sd v week c doms w) = 0
         \<and> db_untouched w (snd (sync_domains e cm sd v week c doms w))"
proof -
  define D where "D = discover_loop e sd (sorted_list_of_set doms) (load_feeds_cache w) [] w"
  have "db_untouched w (snd (snd D))" unfolding D_def by (rule discover_loop_db)
  then have "db_untouched w (save_feeds_cache (fst (snd D)) (snd (snd D)))"
    by (simp add: save_feeds_cache_def db_untouched_def)
  moreover have "sync_domains e cm sd v week c doms w
      = (0, save_feeds_cache (fst (snd D)) (snd (snd D)))"
    using assms by (simp add: sync_domains_def D_def split_beta Let_def)
  ultimately show ?thesis by simp
qed

text \<open>
  C2 says that every cron-mode run that ends without a fatal input error calls
  \<^verbatim>\<open>set_last_cron_run\<close>. The code does so on its two last exits, but not on the
  exit \<^verbatim>\<open>if not feed_urls: return 0\<close>: in a cron run whose only domain does not
  answer, the run returns 0 having called \<^verbatim>\<open>get_current_week\<close> and
  \<^verbatim>\<open>get_last_cron_run\<close> only, and the cursor is the one of the run before.
\<close>

theorem cron_run_without_feeds_keeps_cursor:
  "fst (run_sync blog_env True False 0 False outage_world) = Inr 0
   \<and> db_calls (snd (run_sync blog_env True False 0 False outage_world))
       = [GetCurrentWeek, GetLastCronRun]
   \<and> cron_state (snd (run_sync blog_env True False 0 False outage_world)) = Some (IsoText 5)"
proof -
  define w1 where "w1 = snd (get_current_week blog_env outage_world)"
  define w2 where "w2 = snd (compute_cutoff blog_env True w1)"
  define week where "week = fst (get_current_week blog_env outage_world)"
  define cutoff where "cutoff = fst (compute_cutoff blog_env True w1)"
  define S where "S = sync_domains blog_env True False False week cutoff {''dead.example''} w2"
  have w2: "cron_state w2 = Some (IsoText 5)" "db_calls w2 = [GetCurrentWeek, GetLastCronRun]"
    "crawl_results_file w2 = Some dead_crawl" "feeds_cache_file w2 = None"
    by (simp_all add: w2_def w1_def get_current_week_def compute_cutoff_def get_last_cron_run_def
          datetime_now_def outage_world_def split_beta)
  have "fst (discover_loop blog_env False [''dead.example''] Map.empty [] w2) = []"
    using dead_discovery[of w2] by (simp add: split_beta split: option.splits)
  then have "fst (discover_loop blog_env False (sorted_list_of_set {''dead.example''})
                (load_feeds_cache w2) [] w2) = []"
    using w2(4) by (simp add: load_feeds_cache_def)
  then have S: "fst S = 0" "db_untouched w2 (snd S)"
    unfolding S_def using sync_domains_no_feeds by blast+
  have "run_sync blog_env True False 0 False outage_world = (Inr (fst S), snd S)"
    using w2(3)
    by (simp add: run_sync_def load_crawl_results_def dead_crawl_domains dead_domain_kept
          S_def w1_def w2_def week_def cutoff_def split_beta Let_def)
  then show ?thesis
    using S w2 by (simp add: db_untouched_def)
qed

end
